theory Spec2Isabelle
  imports Main "HOL-Library.Word"
begin

section \<open>Data model of server.go\<close>

type_synonym uint32 = "32 word"
type_synonym int64 = "64 word"

text \<open>
  The structs \<^verbatim>\<open>Project\<close>, \<^verbatim>\<open>Job\<close>, \<^verbatim>\<open>Step\<close> and \<^verbatim>\<open>Config\<close>. The timestamps are
  never read by the runner and are left out. \<^verbatim>\<open>Job\<close> embeds \<^verbatim>\<open>Project\<close>; Go resolves
  \<^verbatim>\<open>job.Id\<close> to the job's own id and \<^verbatim>\<open>job.Project.Id\<close> to the project's.
\<close>

record Project =
  ProjectId :: uint32
  Name :: string
  Repo :: string

record Job =
  Id :: uint32
  Branch :: string
  Status :: string
  Project :: Project

record Step =
  StepName :: string
  Image :: string
  Runs :: string

record Config =
  Steps :: "Step list"

subsection \<open>Formatting with \<^verbatim>\<open>%d\<close>\<close>

definition digit_char :: "nat \<Rightarrow> char" where
  "digit_char d = ''0123456789'' ! d"

fun format_nat :: "nat \<Rightarrow> string" where
  "format_nat n =
     (if n < 10 then [digit_char n] else format_nat (n div 10) @ [digit_char (n mod 10)])"

declare format_nat.simps [simp del]

definition format_uint32 :: "uint32 \<Rightarrow> string" where
  "format_uint32 x = format_nat (unat x)"

definition format_int64 :: "int64 \<Rightarrow> string" where
  "format_int64 x =
     (if sint x < 0 then ''-'' @ format_nat (nat (- sint x)) else format_nat (nat (sint x)))"

subsection \<open>Go errors\<close>

text \<open>
  An \<^verbatim>\<open>error\<close> value is known to the runner only through its text. \<open>Err\<close> is an error
  handed back by the operating system, git, the Docker client or the YAML scanner;
  the other constructors are the \<^verbatim>\<open>fmt.Errorf\<close> calls of server.go, one per call site,
  and \<open>TypeError\<close> is the YAML decoder's list of values it could not decode.
\<close>

datatype error =
    Err string
  | TypeError "string list"
  | GitCloneError error string
  | ReadConfigError error
  | ParseConfigError error
  | EnsureImageError error
  | CreateStartError error
  | StreamLogsError error
  | WaitError error
  | StatusCodeError int64

fun error_text :: "error \<Rightarrow> string" where
  "error_text (Err s) = s"
| "error_text (TypeError ms) = ''yaml: unmarshal errors:'' @ concat (map (\<lambda>m. CHR 10 # ''  '' @ m) ms)"
| "error_text (GitCloneError e out) = ''git clone error: '' @ error_text e @ '', output: '' @ out"
| "error_text (ReadConfigError e) = ''failed to read config file: '' @ error_text e"
| "error_text (ParseConfigError e) = ''failed to parse config file: '' @ error_text e"
| "error_text (EnsureImageError e) = ''failed to ensure image: '' @ error_text e"
| "error_text (CreateStartError e) = ''failed to create and start container: '' @ error_text e"
| "error_text (StreamLogsError e) = ''failed to stream logs: '' @ error_text e"
| "error_text (WaitError e) = ''failed to wait for container: '' @ error_text e"
| "error_text (StatusCodeError c) = ''step failed with status code: '' @ format_int64 c"

subsection \<open>Log lines\<close>

text \<open>
  Every \<^verbatim>\<open>PushLog\<close> call site of server.go is one constructor, so that a line written by
  \<^verbatim>\<open>Run\<close> is told apart from a line a container printed; \<open>render\<close> is the text that
  reaches the store.
\<close>

datatype logline =
    StartingJob string
  | CloneFailed error
  | CloneOutput string
  | ConfigFailed error
  | ClientFailed error
  | StartingStep nat string
  | StepFailed nat error
  | StepCompleted nat
  | JobCompleted
  | RemoveWarning error
  | ContainerOutput string

fun render :: "logline \<Rightarrow> string" where
  "render (StartingJob name) = ''Starting job for project: '' @ name"
| "render (CloneFailed e) = ''Failed to clone repository: '' @ error_text e"
| "render (CloneOutput out) = out"
| "render (ConfigFailed e) = ''Failed to load configuration: '' @ error_text e"
| "render (ClientFailed e) = ''Failed to create Docker client: '' @ error_text e"
| "render (StartingStep i name) = ''Starting step '' @ format_nat i @ '': '' @ name"
| "render (StepFailed i e) = ''Step '' @ format_nat i @ '' failed: '' @ error_text e"
| "render (StepCompleted i) = ''Step '' @ format_nat i @ '' completed successfully''"
| "render JobCompleted = ''Job completed successfully''"
| "render (RemoveWarning e) = ''Warning: Failed to remove container: '' @ error_text e"
| "render (ContainerOutput line) = line"

section \<open>The world outside the runner\<close>

subsection \<open>Docker API values\<close>

record ImageSummary =
  RepoTags :: "string list"

record ContainerConfig =
  cfgImage :: string
  WorkingDir :: string
  Cmd :: "string list"
  Tty :: bool

record HostConfig =
  Binds :: "string list"

text \<open>
  A progress stream of \<^verbatim>\<open>ImagePull\<close>: the chunks it delivers, and the error that ends it
  (\<open>None\<close> for a clean end of file). A log stream of \<^verbatim>\<open>ContainerLogs\<close>: the lines the
  scanner finds, and \<^verbatim>\<open>scanner.Err()\<close>. Both are finite: a container that prints for ever
  is outside this model, as the runner has no timeout.
\<close>

record PullStream =
  chunks :: "string list"
  read_err :: "error option"

record LogStream =
  lines :: "string list"
  scan_err :: "error option"

text \<open>
  What the Docker daemon answers during one call of \<^verbatim>\<open>runStep\<close>. Each API is called at
  most once per call of \<^verbatim>\<open>runStep\<close>, so one answer per API and call is fully general.
  A client is the sequence of these answers, one per call of \<^verbatim>\<open>runStep\<close> in a run.
\<close>

record DockerAnswers =
  ImageList :: "error + ImageSummary list"
  ImagePull :: "string \<Rightarrow> error + PullStream"
  ContainerCreate :: "ContainerConfig \<Rightarrow> HostConfig \<Rightarrow> error + string"
  ContainerStart :: "string \<Rightarrow> error option"
  ContainerLogs :: "string \<Rightarrow> error + LogStream"
  ContainerWait :: "string \<Rightarrow> error + int64"
  ContainerRemove :: "string \<Rightarrow> error option"

type_synonym Client = "nat \<Rightarrow> DockerAnswers"

subsection \<open>YAML documents\<close>

text \<open>
  The manifest as the YAML parser hands it to the decoder: a null, a scalar with its
  text, a sequence, or a mapping with plain string keys in document order. Anchors,
  aliases, merge keys, explicit tags and keys that are not scalars are outside this model.
\<close>

datatype yaml = YNull | YScalar string | YSeq "yaml list" | YMap "(string \<times> yaml) list"

subsection \<open>Effects\<close>

text \<open>
  Everything the runner does to the outside, in the order it does it: rows written to
  the store, lines printed by \<^verbatim>\<open>log.Println\<close>, the git command, the Docker calls, and
  \<open>Fatal\<close>, the \<^verbatim>\<open>log.Fatal\<close> of the storage layer, which ends the process.
\<close>

datatype event =
    DbInsertJob uint32 string string int
  | DbInsertLog uint32 logline
  | DbUpdateStatus uint32 int
  | Fatal error
  | Println logline
  | GitClone string string string
  | EvImageList
  | EvImagePull string
  | EvPullRead string
  | EvPullClose
  | EvContainerCreate ContainerConfig HostConfig
  | EvContainerStart string
  | EvContainerLogs string
  | EvLogsClose
  | EvContainerWait string
  | EvContainerRemove string

text \<open>
  A computation takes the trace so far and either returns a value with the longer
  trace, or the process has exited (\<^verbatim>\<open>os.Exit\<close> inside \<^verbatim>\<open>log.Fatal\<close>) with the trace it
  left behind.
\<close>

datatype 'a result = Exit "event list" | Ret 'a "event list"

type_synonym 'a io = "event list \<Rightarrow> 'a result"

definition bind :: "'a io \<Rightarrow> ('a \<Rightarrow> 'b io) \<Rightarrow> 'b io" where
  "bind m f = (\<lambda>t. case m t of Exit t' \<Rightarrow> Exit t' | Ret a t' \<Rightarrow> f a t')"

definition return :: "'a \<Rightarrow> 'a io" where
  "return a = (\<lambda>t. Ret a t)"

definition emit :: "event \<Rightarrow> unit io" where
  "emit ev = (\<lambda>t. Ret () (t @ [ev]))"

text \<open>
  The answers of the world to one run. \<open>db_exec_err w n\<close> is the error of the
  \<^verbatim>\<open>db.Exec\<close> issued when the trace holds \<open>n\<close> events (every call is issued at a different
  length). \<open>db_insert_job\<close> and \<open>db_select_job\<close> answer the two queries of
  \<^verbatim>\<open>createJob\<close>. \<open>CombinedOutput\<close> runs git with the given arguments; \<open>filepath_Join\<close>,
  \<open>ReadFile\<close> and \<open>yaml_parse\<close> stand for the Go library and the file system.
\<close>

record env =
  db_exec_err :: "nat \<Rightarrow> error option"
  db_insert_job :: "string \<Rightarrow> string \<Rightarrow> error + uint32"
  db_select_job :: "uint32 \<Rightarrow> error + (Project \<times> string \<times> string)"
  CombinedOutput :: "string list \<Rightarrow> string \<times> error option"
  filepath_Join :: "string \<Rightarrow> string \<Rightarrow> string"
  ReadFile :: "string \<Rightarrow> error + string"
  yaml_parse :: "string \<Rightarrow> error + yaml"
  NewClientWithOpts :: "error + Client"

section \<open>Storage\<close>

text \<open>\<^verbatim>\<open>db.Exec\<close> followed by \<^verbatim>\<open>if err != nil { log.Fatal(err) }\<close>.\<close>

definition db_Exec :: "env \<Rightarrow> event \<Rightarrow> unit io" where
  "db_Exec w row = (\<lambda>t.
     case db_exec_err w (length t) of
       Some e \<Rightarrow> Exit (t @ [Fatal e])
     | None \<Rightarrow> Ret () (t @ [row]))"

text \<open>The status column is an SQL integer: the \<^verbatim>\<open>int64\<close> is stored by its signed value.\<close>

definition db_updateJobStatus :: "env \<Rightarrow> uint32 \<Rightarrow> int64 \<Rightarrow> unit io" where
  "db_updateJobStatus w jobId status = db_Exec w (DbUpdateStatus jobId (sint status))"

definition inertLog :: "env \<Rightarrow> uint32 \<Rightarrow> logline \<Rightarrow> unit io" where
  "inertLog w jobId l = db_Exec w (DbInsertLog jobId l)"

text \<open>
  \<^verbatim>\<open>getJobById\<close>: the row selected by \<^verbatim>\<open>j.id = ?\<close> carries the id asked for; the store
  answers with the project, the branch and the status column.
\<close>

definition getJobById :: "env \<Rightarrow> uint32 \<Rightarrow> error + Job" where
  "getJobById w jid =
     (case db_select_job w jid of
        Inl e \<Rightarrow> Inl e
      | Inr (p, branch, status) \<Rightarrow>
          Inr \<lparr>Id = jid, Branch = branch, Status = status, Project = p\<rparr>)"

text \<open>
  \<^verbatim>\<open>createJob\<close>: the insert stores the status \<open>-1\<close> and returns the new id; a failed
  insert writes nothing.
\<close>

definition createJob :: "env \<Rightarrow> string \<Rightarrow> string \<Rightarrow> (error + Job) io" where
  "createJob w projectId branch =
     (case db_insert_job w projectId branch of
        Inl e \<Rightarrow> return (Inl e)
      | Inr jid \<Rightarrow>
          bind (emit (DbInsertJob jid projectId branch (-1)))
            (\<lambda>_. return (getJobById w jid)))"

section \<open>The runner\<close>

definition PushLog :: "env \<Rightarrow> Job \<Rightarrow> logline \<Rightarrow> unit io" where
  "PushLog w job s = bind (inertLog w (Id job) s) (\<lambda>_. emit (Println s))"

definition updateJobStatus :: "env \<Rightarrow> Job \<Rightarrow> int64 \<Rightarrow> unit io" where
  "updateJobStatus w job status = db_updateJobStatus w (Id job) status"

definition repoPath_of :: "Job \<Rightarrow> string" where
  "repoPath_of job =
     ''/tmp/duck-ci/'' @ Name (Project job) @ ''-task-'' @ format_uint32 (Id job)"

definition cloneRepository :: "env \<Rightarrow> Job \<Rightarrow> (error + string) io" where
  "cloneRepository w job =
     (let repoPath = repoPath_of job;
          args = [''git'', ''clone'', ''-b'', Branch job, Repo (Project job), repoPath]
      in bind (emit (GitClone (Branch job) (Repo (Project job)) repoPath))
           (\<lambda>_. case CombinedOutput w args of
                   (out, Some e) \<Rightarrow> return (Inl (GitCloneError e out))
                 | (out, None) \<Rightarrow>
                     bind (PushLog w job (CloneOutput out)) (\<lambda>_. return (Inr repoPath))))"

subsection \<open>Loading the manifest\<close>

text \<open>
  \<^verbatim>\<open>yaml.Unmarshal\<close> of gopkg.in/yaml.v2 is library code, not code of this repository.
  Its decoder is modelled here from the library's documented behaviour for the two
  struct types of server.go and their \<^verbatim>\<open>yaml\<close> field tags: a key that names no field is
  skipped; a field whose key is absent keeps its zero value; a null sets the zero
  value; any other scalar decodes into a string field by its text; a value of the wrong
  kind is recorded as a type error and decoding goes on; the call returns an error
  when the parser failed or at least one type error was recorded. The position prefix
  of the messages is not modelled.
\<close>

definition zero_Step :: Step where
  "zero_Step = \<lparr>StepName = [], Image = [], Runs = []\<rparr>"

definition zero_Config :: Config where
  "zero_Config = \<lparr>Steps = []\<rparr>"

fun decode_string :: "yaml \<Rightarrow> string \<Rightarrow> string \<times> string list" where
  "decode_string YNull cur = ([], [])"
| "decode_string (YScalar s) cur = (s, [])"
| "decode_string (YSeq ys) cur = (cur, [''cannot unmarshal !!seq into string''])"
| "decode_string (YMap kvs) cur = (cur, [''cannot unmarshal !!map into string''])"

fun decode_Step_fields :: "(string \<times> yaml) list \<Rightarrow> Step \<Rightarrow> Step \<times> string list" where
  "decode_Step_fields [] st = (st, [])"
| "decode_Step_fields ((k, v) # kvs) st =
     (let (st', errs) =
            (if k = ''name'' then
               (let (s, es) = decode_string v (StepName st) in (st\<lparr>StepName := s\<rparr>, es))
             else if k = ''image'' then
               (let (s, es) = decode_string v (Image st) in (st\<lparr>Image := s\<rparr>, es))
             else if k = ''runs'' then
               (let (s, es) = decode_string v (Runs st) in (st\<lparr>Runs := s\<rparr>, es))
             else (st, []));
          (st'', errs') = decode_Step_fields kvs st'
      in (st'', errs @ errs'))"

fun decode_Step :: "yaml \<Rightarrow> Step option \<times> string list" where
  "decode_Step YNull = (Some zero_Step, [])"
| "decode_Step (YScalar s) = (None, [''cannot unmarshal !!str into main.Step''])"
| "decode_Step (YSeq ys) = (None, [''cannot unmarshal !!seq into main.Step''])"
| "decode_Step (YMap kvs) =
     (let (st, errs) = decode_Step_fields kvs zero_Step in (Some st, errs))"

text \<open>A sequence element that failed to decode is left out of the slice.\<close>

fun decode_Step_seq :: "yaml list \<Rightarrow> Step list \<times> string list" where
  "decode_Step_seq [] = ([], [])"
| "decode_Step_seq (y # ys) =
     (let (r, errs) = decode_Step y;
          (sts, errs') = decode_Step_seq ys
      in ((case r of None \<Rightarrow> sts | Some st \<Rightarrow> st # sts), errs @ errs'))"

fun decode_Steps :: "yaml \<Rightarrow> Step list \<Rightarrow> Step list \<times> string list" where
  "decode_Steps YNull cur = ([], [])"
| "decode_Steps (YScalar s) cur = (cur, [''cannot unmarshal !!str into []main.Step''])"
| "decode_Steps (YSeq ys) cur = decode_Step_seq ys"
| "decode_Steps (YMap kvs) cur = (cur, [''cannot unmarshal !!map into []main.Step''])"

fun decode_Config_fields :: "(string \<times> yaml) list \<Rightarrow> Config \<Rightarrow> Config \<times> string list" where
  "decode_Config_fields [] c = (c, [])"
| "decode_Config_fields ((k, v) # kvs) c =
     (let (c', errs) =
            (if k = ''steps'' then
               (let (sts, es) = decode_Steps v (Steps c) in (c\<lparr>Steps := sts\<rparr>, es))
             else (c, []));
          (c'', errs') = decode_Config_fields kvs c'
      in (c'', errs @ errs'))"

fun decode_Config :: "yaml \<Rightarrow> Config \<times> string list" where
  "decode_Config YNull = (zero_Config, [])"
| "decode_Config (YScalar s) = (zero_Config, [''cannot unmarshal !!str into main.Config''])"
| "decode_Config (YSeq ys) = (zero_Config, [''cannot unmarshal !!seq into main.Config''])"
| "decode_Config (YMap kvs) = decode_Config_fields kvs zero_Config"

definition yaml_Unmarshal :: "env \<Rightarrow> string \<Rightarrow> error + Config" where
  "yaml_Unmarshal w data =
     (case yaml_parse w data of
        Inl e \<Rightarrow> Inl e
      | Inr doc \<Rightarrow>
          (let (config, errs) = decode_Config doc
           in if errs = [] then Inr config else Inl (TypeError errs)))"

definition loadConfig :: "env \<Rightarrow> string \<Rightarrow> error + Config" where
  "loadConfig w repoPath =
     (let configPath = filepath_Join w repoPath ''duck-ci.yml'' in
      case ReadFile w configPath of
        Inl e \<Rightarrow> Inl (ReadConfigError e)
      | Inr data \<Rightarrow>
          (case yaml_Unmarshal w data of
             Inl e \<Rightarrow> Inl (ParseConfigError e)
           | Inr config \<Rightarrow> Inr config))"

subsection \<open>The container runtime gateway\<close>

fun tag_matches :: "string list \<Rightarrow> string \<Rightarrow> bool" where
  "tag_matches [] imageName = False"
| "tag_matches (tag # tags) imageName =
     (if tag = imageName then True else tag_matches tags imageName)"

fun image_present :: "ImageSummary list \<Rightarrow> string \<Rightarrow> bool" where
  "image_present [] imageName = False"
| "image_present (img # images) imageName =
     (if tag_matches (RepoTags img) imageName then True
      else image_present images imageName)"

text \<open>\<^verbatim>\<open>io.Copy(io.Discard, out)\<close>: reads the stream to its end.\<close>

fun io_Copy_Discard :: "string list \<Rightarrow> unit io" where
  "io_Copy_Discard [] = return ()"
| "io_Copy_Discard (c # cs) = bind (emit (EvPullRead c)) (\<lambda>_. io_Copy_Discard cs)"

definition ensureImage :: "DockerAnswers \<Rightarrow> string \<Rightarrow> (error option) io" where
  "ensureImage client imageName =
     bind (emit EvImageList) (\<lambda>_.
       case ImageList client of
         Inl e \<Rightarrow> return (Some e)
       | Inr images \<Rightarrow>
           if image_present images imageName then return None
           else bind (emit (EvImagePull imageName)) (\<lambda>_.
             case ImagePull client imageName of
               Inl e \<Rightarrow> return (Some e)
             | Inr out \<Rightarrow>
                 bind (io_Copy_Discard (chunks out)) (\<lambda>_.
                 bind (emit EvPullClose) (\<lambda>_. return (read_err out)))))"

definition createAndStartContainer :: "DockerAnswers \<Rightarrow> Step \<Rightarrow> string \<Rightarrow> (error + string) io" where
  "createAndStartContainer client step repoPath =
     (let containerConfig =
            \<lparr>cfgImage = Image step, WorkingDir = ''/app'',
             Cmd = [''/bin/sh'', ''-c'', Runs step], Tty = True\<rparr>;
          hostConfig = \<lparr>Binds = [repoPath @ '':/app'']\<rparr>
      in bind (emit (EvContainerCreate containerConfig hostConfig)) (\<lambda>_.
           case ContainerCreate client containerConfig hostConfig of
             Inl e \<Rightarrow> return (Inl e)
           | Inr ID \<Rightarrow>
               bind (emit (EvContainerStart ID)) (\<lambda>_.
                 case ContainerStart client ID of
                   Some e \<Rightarrow> return (Inl e)
                 | None \<Rightarrow> return (Inr ID))))"

fun scan_loop :: "env \<Rightarrow> Job \<Rightarrow> string list \<Rightarrow> unit io" where
  "scan_loop w job [] = return ()"
| "scan_loop w job (l # ls) =
     bind (PushLog w job (ContainerOutput l)) (\<lambda>_. scan_loop w job ls)"

definition streamLogs :: "env \<Rightarrow> DockerAnswers \<Rightarrow> Job \<Rightarrow> string \<Rightarrow> (error option) io" where
  "streamLogs w client job containerID =
     bind (emit (EvContainerLogs containerID)) (\<lambda>_.
       case ContainerLogs client containerID of
         Inl e \<Rightarrow> return (Some e)
       | Inr out \<Rightarrow>
           bind (scan_loop w job (lines out)) (\<lambda>_.
           bind (emit EvLogsClose) (\<lambda>_. return (scan_err out))))"

definition waitForContainer :: "DockerAnswers \<Rightarrow> string \<Rightarrow> (error + int64) io" where
  "waitForContainer client containerID =
     bind (emit (EvContainerWait containerID)) (\<lambda>_.
       return (ContainerWait client containerID))"

subsection \<open>The step executor\<close>

definition runStep :: "env \<Rightarrow> DockerAnswers \<Rightarrow> Job \<Rightarrow> Step \<Rightarrow> string \<Rightarrow> (error option) io" where
  "runStep w client job step repoPath =
     bind (ensureImage client (Image step)) (\<lambda>err.
     case err of
       Some e \<Rightarrow> return (Some (EnsureImageError e))
     | None \<Rightarrow>
     bind (createAndStartContainer client step repoPath) (\<lambda>r.
     case r of
       Inl e \<Rightarrow> return (Some (CreateStartError e))
     | Inr containerID \<Rightarrow>
     bind (streamLogs w client job containerID) (\<lambda>err.
     case err of
       Some e \<Rightarrow> return (Some (StreamLogsError e))
     | None \<Rightarrow>
     bind (waitForContainer client containerID) (\<lambda>r.
     case r of
       Inl e \<Rightarrow> return (Some (WaitError e))
     | Inr statusCode \<Rightarrow>
     bind (emit (EvContainerRemove containerID)) (\<lambda>_.
     bind (case ContainerRemove client containerID of
             Some e \<Rightarrow> PushLog w job (RemoveWarning e)
           | None \<Rightarrow> return ()) (\<lambda>_.
     if statusCode \<noteq> 0 then return (Some (StatusCodeError statusCode))
     else return None))))))"

subsection \<open>The job runner\<close>

text \<open>
  The \<^verbatim>\<open>for i, step := range config.Steps\<close> loop of \<^verbatim>\<open>Run\<close>, from index \<open>i\<close> on. It
  returns \<open>False\<close> when the body returned from \<^verbatim>\<open>Run\<close>, and \<open>True\<close> when the loop ran
  to its end.
\<close>

fun step_loop :: "env \<Rightarrow> Client \<Rightarrow> Job \<Rightarrow> string \<Rightarrow> nat \<Rightarrow> Step list \<Rightarrow> bool io" where
  "step_loop w client job repoPath i [] = return True"
| "step_loop w client job repoPath i (step # rest) =
     bind (PushLog w job (StartingStep (i + 1) (StepName step))) (\<lambda>_.
     bind (runStep w (client i) job step repoPath) (\<lambda>err.
     case err of
       Some e \<Rightarrow>
         bind (PushLog w job (StepFailed (i + 1) e)) (\<lambda>_.
         bind (updateJobStatus w job (- 1)) (\<lambda>_. return False))
     | None \<Rightarrow>
         bind (PushLog w job (StepCompleted (i + 1))) (\<lambda>_.
         step_loop w client job repoPath (i + 1) rest)))"

definition Run :: "env \<Rightarrow> Job \<Rightarrow> unit io" where
  "Run w job =
     bind (PushLog w job (StartingJob (Name (Project job)))) (\<lambda>_.
     bind (cloneRepository w job) (\<lambda>r.
     case r of
       Inl e \<Rightarrow>
         bind (PushLog w job (CloneFailed e)) (\<lambda>_. updateJobStatus w job (- 1))
     | Inr repoPath \<Rightarrow>
     (case loadConfig w repoPath of
       Inl e \<Rightarrow>
         bind (PushLog w job (ConfigFailed e)) (\<lambda>_. updateJobStatus w job (- 1))
     | Inr config \<Rightarrow>
     (case NewClientWithOpts w of
       Inl e \<Rightarrow>
         bind (PushLog w job (ClientFailed e)) (\<lambda>_. updateJobStatus w job (- 1))
     | Inr client \<Rightarrow>
     bind (step_loop w client job repoPath 0 (Steps config)) (\<lambda>finished.
     if finished then
       bind (PushLog w job JobCompleted) (\<lambda>_. updateJobStatus w job 0)
     else return ())))))"

subsection \<open>The job lifecycle\<close>

text \<open>
  The \<^verbatim>\<open>POST\<close> branch of \<^verbatim>\<open>TaskView\<close>: the job is created and \<^verbatim>\<open>go ci.Run(&job)\<close> starts
  its run. The run is the only writer of the job's rows, so the writes of one job are
  those of \<^verbatim>\<open>createJob\<close> followed by those of \<^verbatim>\<open>Run\<close>; the HTTP answers are left out.
\<close>

definition TaskView_POST :: "env \<Rightarrow> string \<Rightarrow> string \<Rightarrow> unit io" where
  "TaskView_POST w projectId branch =
     bind (createJob w projectId branch) (\<lambda>r.
     case r of
       Inl e \<Rightarrow> return ()
     | Inr job \<Rightarrow> Run w job)"

section \<open>Notions used to state the properties\<close>

text \<open>The store accepts every write of the run: no \<^verbatim>\<open>db.Exec\<close> returns an error.\<close>

definition store_ok :: "env \<Rightarrow> bool" where
  "store_ok w = (\<forall>n. db_exec_err w n = None)"

text \<open>
  The events a computation adds and the value it returns when it starts from the empty
  trace. For a computation that does not exit, neither depends on the trace it starts
  from (\<open>smooth_run\<close> below).
\<close>

definition events_of :: "'a io \<Rightarrow> event list" where
  "events_of m = (case m [] of Exit u \<Rightarrow> u | Ret a u \<Rightarrow> u)"

definition returns :: "'a io \<Rightarrow> 'a \<Rightarrow> bool" where
  "returns m a = (case m [] of Exit u \<Rightarrow> False | Ret b u \<Rightarrow> b = a)"

definition smooth :: "'a io \<Rightarrow> bool" where
  "smooth m = (\<exists>a u. \<forall>t. m t = Ret a (t @ u))"

definition is_digit :: "char \<Rightarrow> bool" where
  "is_digit c = (c \<in> set ''0123456789'')"

subsection \<open>Sample values\<close>

definition demo_project :: Project where
  "demo_project = \<lparr>ProjectId = 1, Name = ''demo'', Repo = ''https://example.org/demo.git''\<rparr>"

definition demo_job :: Job where
  "demo_job = \<lparr>Id = 7, Branch = ''main'', Status = ''-1'', Project = demo_project\<rparr>"

definition next_job :: Job where
  "next_job = \<lparr>Id = 8, Branch = ''main'', Status = ''-1'', Project = demo_project\<rparr>"

definition demo_manifest :: yaml where
  "demo_manifest =
     YMap [(''steps'', YSeq [YMap [(''name'', YScalar ''build''),
                                   (''image'', YScalar ''alpine''),
                                   (''runs'', YScalar ''echo hi'')]])]"

text \<open>
  A daemon that has the image, starts the container \<open>c1\<close>, streams one line and
  reports the given exit code.
\<close>

definition answers_exit :: "int64 \<Rightarrow> DockerAnswers" where
  "answers_exit code =
     \<lparr>ImageList = Inr [\<lparr>RepoTags = [''alpine:latest'', ''alpine'']\<rparr>],
      ImagePull = (\<lambda>_. Inl (Err ''pull access denied'')),
      ContainerCreate = (\<lambda>_ _. Inr ''c1''),
      ContainerStart = (\<lambda>_. None),
      ContainerLogs = (\<lambda>_. Inr \<lparr>lines = [''hi''], scan_err = None\<rparr>),
      ContainerWait = (\<lambda>_. Inr code),
      ContainerRemove = (\<lambda>_. None)\<rparr>"

text \<open>A world in which git, the file system, the store and the Docker client all work.\<close>

definition demo_env :: "yaml \<Rightarrow> Client \<Rightarrow> env" where
  "demo_env doc client =
     \<lparr>db_exec_err = (\<lambda>_. None),
      db_insert_job = (\<lambda>_ _. Inr 7),
      db_select_job = (\<lambda>_. Inr (demo_project, ''main'', ''-1'')),
      CombinedOutput = (\<lambda>_. (''Cloning into demo'', None)),
      filepath_Join = (\<lambda>a b. a @ ''/'' @ b),
      ReadFile = (\<lambda>_. Inr ''steps: ...''),
      yaml_parse = (\<lambda>_. Inr doc),
      NewClientWithOpts = Inr client\<rparr>"

text \<open>A pipeline of three steps, and the manifest it is written in.\<close>

definition build_step :: Step where
  "build_step = \<lparr>StepName = ''build'', Image = ''alpine'', Runs = ''echo hi''\<rparr>"

definition test_step :: Step where
  "test_step = \<lparr>StepName = ''test'', Image = ''alpine'', Runs = ''make test''\<rparr>"

definition deploy_step :: Step where
  "deploy_step = \<lparr>StepName = ''deploy'', Image = ''alpine'', Runs = ''make deploy''\<rparr>"

definition pipeline_manifest :: yaml where
  "pipeline_manifest =
     YMap [(''steps'',
            YSeq [YMap [(''name'', YScalar ''build''), (''image'', YScalar ''alpine''),
                        (''runs'', YScalar ''echo hi'')],
                  YMap [(''name'', YScalar ''test''), (''image'', YScalar ''alpine''),
                        (''runs'', YScalar ''make test'')],
                  YMap [(''name'', YScalar ''deploy''), (''image'', YScalar ''alpine''),
                        (''runs'', YScalar ''make deploy'')]])]"

text \<open>A client whose second container exits with code 3; every other one exits with 0.\<close>

definition second_exits_3 :: Client where
  "second_exits_3 = (\<lambda>i. if i = 1 then answers_exit 3 else answers_exit 0)"

subsection \<open>Observations on a trace\<close>

text \<open>The container and host configuration \<^verbatim>\<open>createAndStartContainer\<close> builds for a step.\<close>

definition containerConfig_of :: "Step \<Rightarrow> ContainerConfig" where
  "containerConfig_of step =
     \<lparr>cfgImage = Image step, WorkingDir = ''/app'',
      Cmd = [''/bin/sh'', ''-c'', Runs step], Tty = True\<rparr>"

definition hostConfig_of :: "string \<Rightarrow> HostConfig" where
  "hostConfig_of repoPath = \<lparr>Binds = [repoPath @ '':/app'']\<rparr>"

text \<open>The log lines stored, in order.\<close>

definition stored_lines :: "event list \<Rightarrow> logline list" where
  "stored_lines T = concat (map (\<lambda>ev. case ev of DbInsertLog j l \<Rightarrow> [l] | _ \<Rightarrow> []) T)"

definition is_StartingStep :: "logline \<Rightarrow> bool" where
  "is_StartingStep l = (case l of StartingStep i name \<Rightarrow> True | _ \<Rightarrow> False)"

text \<open>The lines by which \<^verbatim>\<open>Run\<close> reports a failure.\<close>

definition is_failure_line :: "logline \<Rightarrow> bool" where
  "is_failure_line l =
     (case l of CloneFailed e \<Rightarrow> True | ConfigFailed e \<Rightarrow> True | ClientFailed e \<Rightarrow> True
      | StepFailed i e \<Rightarrow> True | _ \<Rightarrow> False)"

text \<open>The containers created, in order, and the containers whose removal was attempted.\<close>

definition created :: "event list \<Rightarrow> (ContainerConfig \<times> HostConfig) list" where
  "created T = concat (map (\<lambda>ev. case ev of EvContainerCreate c h \<Rightarrow> [(c, h)] | _ \<Rightarrow> []) T)"

definition started :: "event list \<Rightarrow> string list" where
  "started T = concat (map (\<lambda>ev. case ev of EvContainerStart cid \<Rightarrow> [cid] | _ \<Rightarrow> []) T)"

definition removed :: "event list \<Rightarrow> string list" where
  "removed T = concat (map (\<lambda>ev. case ev of EvContainerRemove cid \<Rightarrow> [cid] | _ \<Rightarrow> []) T)"

text \<open>
  The calls of the step executor: \<^verbatim>\<open>runStep\<close> begins with \<^verbatim>\<open>ensureImage\<close>, which lists
  the images first, once, and nothing else lists images.
\<close>

definition executor_calls :: "event list \<Rightarrow> nat" where
  "executor_calls T = length (filter (\<lambda>ev. ev = EvImageList) T)"

text \<open>The status values written to the row of a job, in order.\<close>

definition status_writes :: "uint32 \<Rightarrow> event list \<Rightarrow> int list" where
  "status_writes jid T =
     concat (map (\<lambda>ev. case ev of
                          DbInsertJob j p b c \<Rightarrow> if j = jid then [c] else []
                        | DbUpdateStatus j c \<Rightarrow> if j = jid then [c] else []
                        | _ \<Rightarrow> []) T)"

text \<open>All status writes, with the job they go to.\<close>

definition all_status_writes :: "event list \<Rightarrow> (uint32 \<times> int) list" where
  "all_status_writes T =
     concat (map (\<lambda>ev. case ev of
                          DbInsertJob j p b c \<Rightarrow> [(j, c)]
                        | DbUpdateStatus j c \<Rightarrow> [(j, c)]
                        | _ \<Rightarrow> []) T)"


subsection \<open>Notions used in the proofs\<close>

text \<open>The events by which \<^verbatim>\<open>streamLogs\<close> forwards the lines of a container.\<close>

definition output_events :: "Job \<Rightarrow> string list \<Rightarrow> event list" where
  "output_events job ls =
     concat (map (\<lambda>l. [DbInsertLog (Id job) (ContainerOutput l), Println (ContainerOutput l)]) ls)"

text \<open>
  \<open>post m Q\<close>: from every trace, \<open>m\<close> returns the same value and adds the same events,
  and \<open>Q\<close> holds of them.
\<close>

definition post :: "'a io \<Rightarrow> ('a \<Rightarrow> event list \<Rightarrow> bool) \<Rightarrow> bool" where
  "post m Q = (\<exists>a u. (\<forall>t. m t = Ret a (t @ u)) \<and> Q a u)"

text \<open>What every call of \<^verbatim>\<open>runStep\<close> guarantees about the events it adds.\<close>

definition step_post :: "Step \<Rightarrow> string \<Rightarrow> error option \<Rightarrow> event list \<Rightarrow> bool" where
  "step_post step repoPath r u =
     (executor_calls u = 1
      \<and> filter is_StartingStep (stored_lines u) = []
      \<and> all_status_writes u = []
      \<and> (created u = [] \<or> created u = [(containerConfig_of step, hostConfig_of repoPath)])
      \<and> (r = None \<longrightarrow> created u = [(containerConfig_of step, hostConfig_of repoPath)]
                       \<and> removed u = started u \<and> length (started u) = 1))"

text \<open>The container \<^verbatim>\<open>runStep\<close> creates for a step.\<close>

definition step_cfg :: "string \<Rightarrow> Step \<Rightarrow> ContainerConfig \<times> HostConfig" where
  "step_cfg repoPath step = (containerConfig_of step, hostConfig_of repoPath)"

text \<open>The end of a failed run: the failure line, then the status \<open>-1\<close>.\<close>

definition fail_events :: "Job \<Rightarrow> logline \<Rightarrow> event list" where
  "fail_events job l = [DbInsertLog (Id job) l, Println l, DbUpdateStatus (Id job) (- 1)]"

text \<open>One iteration of the step loop whose step succeeds.\<close>

definition pass_events :: "env \<Rightarrow> DockerAnswers \<Rightarrow> Job \<Rightarrow> nat \<Rightarrow> Step \<Rightarrow> string \<Rightarrow> event list" where
  "pass_events w client job i step repoPath =
     [DbInsertLog (Id job) (StartingStep (i + 1) (StepName step)),
      Println (StartingStep (i + 1) (StepName step))]
     @ events_of (runStep w client job step repoPath)
     @ [DbInsertLog (Id job) (StepCompleted (i + 1)), Println (StepCompleted (i + 1))]"

text \<open>The events of a run up to the step loop.\<close>

definition head_events :: "env \<Rightarrow> Job \<Rightarrow> event list" where
  "head_events w job =
     [DbInsertLog (Id job) (StartingJob (Name (Project job))),
      Println (StartingJob (Name (Project job)))]
     @ events_of (cloneRepository w job)"

subsection \<open>Manifests\<close>

text \<open>
  What a step object of the manifest says about a field: the text of the last value
  given for the key, and the empty string when the key is absent or its value is null.
\<close>

definition text_of :: "yaml \<Rightarrow> string" where
  "text_of v = (case v of YScalar s \<Rightarrow> s | _ \<Rightarrow> [])"

definition field_text :: "(string \<times> yaml) list \<Rightarrow> string \<Rightarrow> string" where
  "field_text kvs k = (case map_of (rev kvs) k of None \<Rightarrow> [] | Some v \<Rightarrow> text_of v)"

definition step_of_object :: "(string \<times> yaml) list \<Rightarrow> Step" where
  "step_of_object kvs =
     \<lparr>StepName = field_text kvs ''name'', Image = field_text kvs ''image'',
      Runs = field_text kvs ''runs''\<rparr>"

text \<open>A value that decodes into a string field: a scalar or a null.\<close>

definition plain_value :: "yaml \<Rightarrow> bool" where
  "plain_value v = (case v of YNull \<Rightarrow> True | YScalar s \<Rightarrow> True | _ \<Rightarrow> False)"

definition plain_object :: "(string \<times> yaml) list \<Rightarrow> bool" where
  "plain_object kvs = list_all (\<lambda>kv. plain_value (snd kv)) kvs"

text \<open>A \<^verbatim>\<open>steps\<close> value of the wrong kind: a scalar or a mapping where a list is expected.\<close>

definition not_a_list :: "yaml \<Rightarrow> bool" where
  "not_a_list v = (case v of YScalar s \<Rightarrow> True | YMap kvs \<Rightarrow> True | _ \<Rightarrow> False)"

subsection \<open>More sample values\<close>

text \<open>A manifest whose only step names an image and nothing to run.\<close>

definition no_runs_manifest :: yaml where
  "no_runs_manifest =
     YMap [(''steps'', YSeq [YMap [(''name'', YScalar ''build''), (''image'', YScalar ''alpine'')]])]"

text \<open>Daemons whose log stream cannot be opened, and whose wait fails.\<close>

definition answers_stream_fails :: DockerAnswers where
  "answers_stream_fails = (answers_exit 0)\<lparr>ContainerLogs := (\<lambda>_. Inl (Err ''connection reset''))\<rparr>"

definition answers_wait_fails :: DockerAnswers where
  "answers_wait_fails = (answers_exit 0)\<lparr>ContainerWait := (\<lambda>_. Inl (Err ''context canceled''))\<rparr>"

text \<open>A client all of whose containers exit with code 0.\<close>

definition all_exit_0 :: Client where
  "all_exit_0 = (\<lambda>i. answers_exit 0)"

text \<open>A world in which the manifest file cannot be read.\<close>

definition no_file_env :: env where
  "no_file_env =
     (demo_env YNull all_exit_0)
       \<lparr>ReadFile := (\<lambda>_. Inl (Err ''open duck-ci.yml: no such file or directory''))\<rparr>"


subsection \<open>Runs in a world where the store may fail\<close>

text \<open>The trace a computation leaves behind, whether it returned or the process exited.\<close>

definition trace_of :: "'a result \<Rightarrow> event list" where
  "trace_of r = (case r of Exit u \<Rightarrow> u | Ret a u \<Rightarrow> u)"

text \<open>A stretch of the trace without a status write.\<close>

definition no_status :: "event list \<Rightarrow> bool" where
  "no_status v = (all_status_writes v = [])"

text \<open>
  \<open>hoare m Q\<close>: whatever the store answers, \<open>m\<close> only extends the trace; when it returns,
  \<open>Q\<close> holds of its value and of the events it added; when the process exits inside it,
  it has added no status write.
\<close>

definition hoare :: "'a io \<Rightarrow> ('a \<Rightarrow> event list \<Rightarrow> bool) \<Rightarrow> bool" where
  "hoare m Q =
     (\<forall>t. case m t of
            Ret a u \<Rightarrow> (\<exists>v. u = t @ v \<and> Q a v)
          | Exit u \<Rightarrow> (\<exists>v. u = t @ v \<and> no_status v))"

text \<open>A computation that never writes a status.\<close>

definition quiet :: "'a io \<Rightarrow> bool" where
  "quiet m = hoare m (\<lambda>a v. no_status v)"

text \<open>The events of a run that reported a failure, and of one that succeeded.\<close>

definition ends_failed :: "Job \<Rightarrow> event list \<Rightarrow> bool" where
  "ends_failed job v =
     (\<exists>v' l. v = v' @ [DbInsertLog (Id job) l, Println l, DbUpdateStatus (Id job) (- 1)]
        \<and> no_status v' \<and> is_failure_line l)"

definition ends_succeeded :: "Job \<Rightarrow> event list \<Rightarrow> bool" where
  "ends_succeeded job v =
     (\<exists>v'. v = v' @ [DbInsertLog (Id job) JobCompleted, Println JobCompleted,
                      DbUpdateStatus (Id job) 0]
        \<and> no_status v')"

text \<open>What the step loop and the whole run guarantee in every world.\<close>

definition loop_post :: "Job \<Rightarrow> bool \<Rightarrow> event list \<Rightarrow> bool" where
  "loop_post job b v = (if b then no_status v else ends_failed job v)"

definition run_post :: "Job \<Rightarrow> event list \<Rightarrow> bool" where
  "run_post job v = (ends_failed job v \<or> ends_succeeded job v)"

section \<open>Decimal formatting\<close>

lemma digit_cases: "d < 10 \<Longrightarrow> d \<in> {0, 1, 2, 3, 4, 5, 6, 7, 8, 9::nat}"
  by auto

lemma digit_char_is_digit: "d < 10 \<Longrightarrow> is_digit (digit_char d)"
  by (drule digit_cases) (auto simp: is_digit_def digit_char_def)

lemma digit_char_inj: "d < 10 \<Longrightarrow> e < 10 \<Longrightarrow> digit_char d = digit_char e \<Longrightarrow> d = e"
proof -
  assume d: "d < 10" and e: "e < 10" and eq: "digit_char d = digit_char e"
  have dist: "distinct ''0123456789''" by simp
  have len: "length ''0123456789'' = 10" by simp
  from eq have "''0123456789'' ! d = ''0123456789'' ! e" by (simp only: digit_char_def)
  with dist d e len show "d = e" by (simp only: nth_eq_iff_index_eq)
qed

lemma format_nat_digits: "list_all is_digit (format_nat n)"
proof (induction n rule: format_nat.induct)
  case (1 n)
  show ?case
  proof (cases "n < 10")
    case True
    then show ?thesis by (subst format_nat.simps) (simp add: digit_char_is_digit)
  next
    case False
    with 1 show ?thesis by (subst format_nat.simps) (simp add: digit_char_is_digit)
  qed
qed

lemma format_nat_length: "10 \<le> n \<Longrightarrow> 2 \<le> length (format_nat n)"
  by (subst format_nat.simps, simp, subst format_nat.simps, simp)

lemma format_nat_inj: "format_nat m = format_nat n \<Longrightarrow> m = n"
proof (induction m arbitrary: n rule: format_nat.induct)
  case (1 m)
  show ?case
  proof (cases "m < 10")
    case m: True
    show ?thesis
    proof (cases "n < 10")
      case True
      with m 1(2) show ?thesis
        by (auto simp: format_nat.simps[of m] format_nat.simps[of n] dest: digit_char_inj)
    next
      case False
      then have "2 \<le> length (format_nat n)" by (simp add: format_nat_length)
      moreover from m have "length (format_nat m) = 1" by (simp add: format_nat.simps[of m])
      ultimately show ?thesis using 1(2) by simp
    qed
  next
    case m: False
    show ?thesis
    proof (cases "n < 10")
      case True
      from m have "2 \<le> length (format_nat m)" by (simp add: format_nat_length)
      moreover from True have "length (format_nat n) = 1" by (simp add: format_nat.simps[of n])
      ultimately show ?thesis using 1(2) by simp
    next
      case False
      with m 1(2) have eq: "format_nat (m div 10) = format_nat (n div 10)"
        and dg: "digit_char (m mod 10) = digit_char (n mod 10)"
        by (simp_all add: format_nat.simps[of m] format_nat.simps[of n])
      from 1(1)[OF m eq] have "m div 10 = n div 10" .
      moreover from dg have "m mod 10 = n mod 10"
        using digit_char_inj[of "m mod 10" "n mod 10"] by simp
      ultimately show ?thesis by (metis div_mult_mod_eq)
    qed
  qed
qed

lemma format_nat_numeral [simp]:
  "format_nat (numeral k) =
     (if (numeral k :: nat) < 10 then [digit_char (numeral k)]
      else format_nat (numeral k div 10) @ [digit_char (numeral k mod 10)])"
  by (rule format_nat.simps)

lemma format_nat_0 [simp]: "format_nat 0 = ''0''"
  by (simp add: format_nat.simps[of 0] digit_char_def)

lemma format_nat_1 [simp]: "format_nat (Suc 0) = ''1''"
  by (simp add: format_nat.simps[of "Suc 0"] digit_char_def)

lemma digit_char_numeral [simp]: "digit_char (numeral k) = ''0123456789'' ! numeral k"
  by (simp add: digit_char_def)

section \<open>The working directory of a run\<close>

lemma takeWhile_digits:
  "list_all P xs \<Longrightarrow> \<not> P y \<Longrightarrow> takeWhile P (xs @ y # ys) = xs"
  by (induction xs) auto

lemma suffix_digits_unique:
  assumes "a @ ''-task-'' @ f = b @ ''-task-'' @ g"
    and "list_all is_digit f" and "list_all is_digit g"
  shows "f = g"
proof -
  have nd: "\<not> is_digit CHR ''-''" by (simp add: is_digit_def)
  from assms(1) have "rev (a @ ''-task-'' @ f) = rev (b @ ''-task-'' @ g)" by simp
  then have eq: "rev f @ CHR ''-'' # (''ksat-'' @ rev a) = rev g @ CHR ''-'' # (''ksat-'' @ rev b)"
    by simp
  have "takeWhile is_digit (rev f @ CHR ''-'' # (''ksat-'' @ rev a)) = rev f"
    using assms(2) nd by (intro takeWhile_digits) (simp_all add: list_all_iff)
  moreover have "takeWhile is_digit (rev g @ CHR ''-'' # (''ksat-'' @ rev b)) = rev g"
    using assms(3) nd by (intro takeWhile_digits) (simp_all add: list_all_iff)
  ultimately have "rev f = rev g" using eq by simp
  then show ?thesis by simp
qed

lemma repoPath_distinct:
  "Id j1 \<noteq> Id j2 \<Longrightarrow> repoPath_of j1 \<noteq> repoPath_of j2"
proof
  assume ne: "Id j1 \<noteq> Id j2" and eq: "repoPath_of j1 = repoPath_of j2"
  from eq have "Name (Project j1) @ ''-task-'' @ format_uint32 (Id j1)
      = Name (Project j2) @ ''-task-'' @ format_uint32 (Id j2)"
    by (simp add: repoPath_of_def)
  then have "format_uint32 (Id j1) = format_uint32 (Id j2)"
    by (rule suffix_digits_unique) (simp_all add: format_uint32_def format_nat_digits)
  then have "unat (Id j1) = unat (Id j2)"
    by (simp add: format_uint32_def format_nat_inj)
  with ne show False by (simp add: word_unat_eq_iff)
qed

section \<open>Computations that do not exit\<close>

lemma smoothI: "(\<And>t. m t = Ret a (t @ u)) \<Longrightarrow> smooth m"
  unfolding smooth_def by blast

lemma smooth_run: "smooth m \<Longrightarrow> returns m a \<Longrightarrow> m t = Ret a (t @ events_of m)"
  unfolding smooth_def returns_def events_of_def
  by (auto split: result.splits)

lemma smooth_returns: "smooth m \<Longrightarrow> \<exists>a. returns m a"
  unfolding smooth_def returns_def by (auto split: result.splits)

lemma returns_unique: "returns m a \<Longrightarrow> returns m b \<Longrightarrow> a = b"
  by (simp add: returns_def split: result.splits)

lemma smooth_return [simp]: "smooth (return a)"
  by (rule smoothI[where u="[]"]) (simp add: return_def)

lemma smooth_emit [simp]: "smooth (emit ev)"
  by (rule smoothI[where u="[ev]"]) (simp add: emit_def)

lemma smooth_bind: "smooth m \<Longrightarrow> (\<And>a. returns m a \<Longrightarrow> smooth (f a)) \<Longrightarrow> smooth (bind m f)"
proof -
  assume m: "smooth m" and f: "\<And>a. returns m a \<Longrightarrow> smooth (f a)"
  from m obtain a u where mu: "\<And>t. m t = Ret a (t @ u)" unfolding smooth_def by blast
  then have "returns m a" unfolding returns_def by simp
  from f[OF this] obtain b v where fv: "\<And>t. f a t = Ret b (t @ v)" unfolding smooth_def by blast
  show ?thesis
    by (rule smoothI[where a=b and u="u @ v"]) (simp add: bind_def mu fv)
qed

lemma db_Exec_ok: "store_ok w \<Longrightarrow> db_Exec w row t = Ret () (t @ [row])"
  by (simp add: db_Exec_def store_ok_def)

lemma PushLog_ok:
  "store_ok w \<Longrightarrow> PushLog w job l t = Ret () (t @ [DbInsertLog (Id job) l, Println l])"
  by (simp add: PushLog_def inertLog_def bind_def emit_def db_Exec_ok)

lemma updateJobStatus_ok:
  "store_ok w \<Longrightarrow> updateJobStatus w job c t = Ret () (t @ [DbUpdateStatus (Id job) (sint c)])"
  by (simp add: updateJobStatus_def db_updateJobStatus_def db_Exec_ok)

lemma smooth_PushLog: "store_ok w \<Longrightarrow> smooth (PushLog w job l)"
  by (rule smoothI) (rule PushLog_ok)

lemma io_Copy_Discard_run: "io_Copy_Discard cs t = Ret () (t @ map EvPullRead cs)"
  by (induction cs arbitrary: t) (simp_all add: return_def bind_def emit_def)

lemma scan_loop_ok:
  "store_ok w \<Longrightarrow> scan_loop w job ls t =
     Ret () (t @ concat (map (\<lambda>l. [DbInsertLog (Id job) (ContainerOutput l), Println (ContainerOutput l)]) ls))"
  by (induction ls arbitrary: t) (simp_all add: return_def bind_def PushLog_ok)

section \<open>The container runtime gateway\<close>

lemma tag_matches_iff: "tag_matches tags n = (n \<in> set tags)"
  by (induction tags) auto

lemma image_present_iff: "image_present images n = (\<exists>img \<in> set images. n \<in> set (RepoTags img))"
  by (induction images) (auto simp: tag_matches_iff)

lemma ensureImage_run:
  "ensureImage client imageName t =
     (case ImageList client of
        Inl e \<Rightarrow> Ret (Some e) (t @ [EvImageList])
      | Inr images \<Rightarrow>
          if (\<exists>img \<in> set images. imageName \<in> set (RepoTags img))
          then Ret None (t @ [EvImageList])
          else (case ImagePull client imageName of
                  Inl e \<Rightarrow> Ret (Some e) (t @ [EvImageList, EvImagePull imageName])
                | Inr out \<Rightarrow>
                    Ret (read_err out)
                      (t @ [EvImageList, EvImagePull imageName] @ map EvPullRead (chunks out)
                         @ [EvPullClose])))"
  by (simp add: ensureImage_def bind_def emit_def return_def image_present_iff
      io_Copy_Discard_run split: sum.splits)

lemma smooth_io_Copy_Discard: "smooth (io_Copy_Discard cs)"
  by (rule smoothI) (rule io_Copy_Discard_run)

lemma smooth_ensureImage: "smooth (ensureImage client n)"
  unfolding ensureImage_def
  by (intro smooth_bind smooth_emit smooth_return smooth_io_Copy_Discard
      | simp split: sum.split | intro conjI impI allI)+

section \<open>The step executor\<close>

lemma createAndStartContainer_run:
  "createAndStartContainer client step repoPath t =
     (case ContainerCreate client (containerConfig_of step) (hostConfig_of repoPath) of
        Inl e \<Rightarrow>
          Ret (Inl e) (t @ [EvContainerCreate (containerConfig_of step) (hostConfig_of repoPath)])
      | Inr cid \<Rightarrow>
          Ret (case ContainerStart client cid of Some e \<Rightarrow> Inl e | None \<Rightarrow> Inr cid)
            (t @ [EvContainerCreate (containerConfig_of step) (hostConfig_of repoPath),
                  EvContainerStart cid]))"
  by (simp add: createAndStartContainer_def containerConfig_of_def hostConfig_of_def Let_def
      bind_def emit_def return_def split: sum.splits option.splits)

lemma streamLogs_ok:
  "store_ok w \<Longrightarrow>
   streamLogs w client job cid t =
     (case ContainerLogs client cid of
        Inl e \<Rightarrow> Ret (Some e) (t @ [EvContainerLogs cid])
      | Inr out \<Rightarrow>
          Ret (scan_err out)
            (t @ [EvContainerLogs cid] @ output_events job (lines out) @ [EvLogsClose]))"
  by (simp add: streamLogs_def bind_def emit_def return_def scan_loop_ok output_events_def
      split: sum.splits)

lemma waitForContainer_run:
  "waitForContainer client cid t = Ret (ContainerWait client cid) (t @ [EvContainerWait cid])"
  by (simp add: waitForContainer_def bind_def emit_def return_def)

lemma smooth_createAndStartContainer: "smooth (createAndStartContainer client step repoPath)"
  unfolding createAndStartContainer_def Let_def
  by (intro smooth_bind smooth_emit smooth_return
      | simp split: option.split sum.split | intro conjI impI allI)+

lemma smooth_scan_loop: "store_ok w \<Longrightarrow> smooth (scan_loop w job ls)"
  by (rule smoothI) (rule scan_loop_ok)

lemma smooth_streamLogs: "store_ok w \<Longrightarrow> smooth (streamLogs w client job cid)"
  unfolding streamLogs_def
  by (intro smooth_bind smooth_emit smooth_return smooth_scan_loop
      | simp split: option.split sum.split | intro conjI impI allI)+

lemma smooth_waitForContainer: "smooth (waitForContainer client cid)"
  by (rule smoothI) (rule waitForContainer_run)

lemma postI: "(\<And>t. m t = Ret a (t @ u)) \<Longrightarrow> Q a u \<Longrightarrow> post m Q"
  unfolding post_def by blast

lemma post_smooth: "post m Q \<Longrightarrow> smooth m"
  unfolding post_def smooth_def by blast

lemma post_returns: "post m Q \<Longrightarrow> returns m a \<Longrightarrow> Q a (events_of m)"
  unfolding post_def returns_def events_of_def by (auto split: result.splits)

lemma post_return: "Q a [] \<Longrightarrow> post (return a) Q"
  by (rule postI[where u="[]"]) (simp_all add: return_def)

lemma post_emit: "Q () [ev] \<Longrightarrow> post (emit ev) Q"
  by (rule postI[where u="[ev]"]) (simp_all add: emit_def)

lemma post_bind:
  assumes "post m P" and "\<And>a u. P a u \<Longrightarrow> post (f a) (\<lambda>b v. Q b (u @ v))"
  shows "post (bind m f) Q"
proof -
  from assms(1) obtain a u where mu: "\<And>t. m t = Ret a (t @ u)" and P: "P a u"
    unfolding post_def by blast
  from assms(2)[OF P] obtain b v where fv: "\<And>t. f a t = Ret b (t @ v)" and Q: "Q b (u @ v)"
    unfolding post_def by blast
  show ?thesis
    by (rule postI[where a=b and u="u @ v"]) (simp_all add: bind_def mu fv Q)
qed

lemma post_PushLog:
  "store_ok w \<Longrightarrow> Q () [DbInsertLog (Id job) l, Println l] \<Longrightarrow> post (PushLog w job l) Q"
  by (rule postI[where u="[DbInsertLog (Id job) l, Println l]"]) (simp_all add: PushLog_ok)

text \<open>Observers distribute over append.\<close>

lemma obs_append [simp]:
  "executor_calls (xs @ ys) = executor_calls xs + executor_calls ys"
  "stored_lines (xs @ ys) = stored_lines xs @ stored_lines ys"
  "created (xs @ ys) = created xs @ created ys"
  "started (xs @ ys) = started xs @ started ys"
  "removed (xs @ ys) = removed xs @ removed ys"
  "all_status_writes (xs @ ys) = all_status_writes xs @ all_status_writes ys"
  "status_writes j (xs @ ys) = status_writes j xs @ status_writes j ys"
  by (simp_all add: executor_calls_def stored_lines_def created_def started_def removed_def
      all_status_writes_def status_writes_def)

lemma obs_Nil [simp]:
  "executor_calls [] = 0" "stored_lines [] = []" "created [] = []" "started [] = []"
  "removed [] = []" "all_status_writes [] = []" "status_writes j [] = []"
  by (simp_all add: executor_calls_def stored_lines_def created_def started_def removed_def
      all_status_writes_def status_writes_def)

lemma obs_Cons [simp]:
  "executor_calls (ev # xs) = (if ev = EvImageList then 1 else 0) + executor_calls xs"
  "stored_lines (ev # xs) = (case ev of DbInsertLog j l \<Rightarrow> [l] | _ \<Rightarrow> []) @ stored_lines xs"
  "created (ev # xs) = (case ev of EvContainerCreate c h \<Rightarrow> [(c, h)] | _ \<Rightarrow> []) @ created xs"
  "started (ev # xs) = (case ev of EvContainerStart cid \<Rightarrow> [cid] | _ \<Rightarrow> []) @ started xs"
  "removed (ev # xs) = (case ev of EvContainerRemove cid \<Rightarrow> [cid] | _ \<Rightarrow> []) @ removed xs"
  "all_status_writes (ev # xs) =
     (case ev of DbInsertJob j p b c \<Rightarrow> [(j, c)] | DbUpdateStatus j c \<Rightarrow> [(j, c)] | _ \<Rightarrow> [])
       @ all_status_writes xs"
  "status_writes jid (ev # xs) =
     (case ev of DbInsertJob j p b c \<Rightarrow> if j = jid then [c] else []
               | DbUpdateStatus j c \<Rightarrow> if j = jid then [c] else [] | _ \<Rightarrow> [])
       @ status_writes jid xs"
  by (simp_all add: executor_calls_def stored_lines_def created_def started_def removed_def
      all_status_writes_def status_writes_def)

lemma obs_reads [simp]:
  "executor_calls (map EvPullRead cs) = 0" "stored_lines (map EvPullRead cs) = []"
  "created (map EvPullRead cs) = []" "started (map EvPullRead cs) = []"
  "removed (map EvPullRead cs) = []" "all_status_writes (map EvPullRead cs) = []"
  by (induction cs) simp_all

lemma obs_output [simp]:
  "executor_calls (output_events job ls) = 0"
  "stored_lines (output_events job ls) = map ContainerOutput ls"
  "created (output_events job ls) = []" "started (output_events job ls) = []"
  "removed (output_events job ls) = []" "all_status_writes (output_events job ls) = []"
  by (induction ls) (simp_all add: output_events_def)

lemma post_ensureImage:
  "post (ensureImage client n)
     (\<lambda>r u. executor_calls u = 1 \<and> stored_lines u = [] \<and> created u = [] \<and> started u = []
           \<and> removed u = [] \<and> all_status_writes u = [])"
proof (cases "ImageList client")
  case (Inl e)
  then show ?thesis
    by (intro postI[where a="Some e" and u="[EvImageList]"]) (simp_all add: ensureImage_run)
next
  case (Inr images)
  show ?thesis
  proof (cases "\<exists>img \<in> set images. n \<in> set (RepoTags img)")
    case True
    with Inr show ?thesis
      by (intro postI[where a=None and u="[EvImageList]"]) (simp_all add: ensureImage_run)
  next
    case False
    show ?thesis
    proof (cases "ImagePull client n")
      case (Inl e)
      with Inr False show ?thesis
        by (intro postI[where a="Some e" and u="[EvImageList, EvImagePull n]"])
          (simp_all add: ensureImage_run)
    next
      case (Inr out)
      with \<open>ImageList client = Inr images\<close> False show ?thesis
        by (intro postI[where a="read_err out"
              and u="[EvImageList, EvImagePull n] @ map EvPullRead (chunks out) @ [EvPullClose]"])
          (simp_all add: ensureImage_run)
    qed
  qed
qed

lemma post_createAndStartContainer:
  "post (createAndStartContainer client step repoPath)
     (\<lambda>r u. executor_calls u = 0 \<and> stored_lines u = []
           \<and> created u = [(containerConfig_of step, hostConfig_of repoPath)]
           \<and> (case r of Inl e \<Rightarrow> True | Inr cid \<Rightarrow> started u = [cid])
           \<and> removed u = [] \<and> all_status_writes u = [])"
proof (cases "ContainerCreate client (containerConfig_of step) (hostConfig_of repoPath)")
  case (Inl e)
  then show ?thesis
    by (intro postI[where a="Inl e"
          and u="[EvContainerCreate (containerConfig_of step) (hostConfig_of repoPath)]"])
      (simp_all add: createAndStartContainer_run)
next
  case (Inr cid)
  then show ?thesis
    by (intro postI[where a="case ContainerStart client cid of Some e \<Rightarrow> Inl e | None \<Rightarrow> Inr cid"
          and u="[EvContainerCreate (containerConfig_of step) (hostConfig_of repoPath),
                  EvContainerStart cid]"])
      (simp_all add: createAndStartContainer_run split: option.splits)
qed

lemma post_streamLogs:
  "store_ok w \<Longrightarrow>
   post (streamLogs w client job cid)
     (\<lambda>r u. executor_calls u = 0 \<and> filter is_StartingStep (stored_lines u) = [] \<and> created u = []
           \<and> started u = [] \<and> removed u = [] \<and> all_status_writes u = [])"
proof (cases "ContainerLogs client cid")
  case (Inl e)
  assume "store_ok w"
  with Inl show ?thesis
    by (intro postI[where a="Some e" and u="[EvContainerLogs cid]"]) (simp_all add: streamLogs_ok)
next
  case (Inr out)
  assume "store_ok w"
  with Inr show ?thesis
    by (intro postI[where a="scan_err out"
          and u="[EvContainerLogs cid] @ output_events job (lines out) @ [EvLogsClose]"])
      (simp_all add: streamLogs_ok filter_empty_conv is_StartingStep_def)
qed

lemma post_waitForContainer:
  "post (waitForContainer client cid)
     (\<lambda>r u. ContainerWait client cid = r \<and> executor_calls u = 0 \<and> stored_lines u = [] \<and> created u = []
           \<and> started u = [] \<and> removed u = [] \<and> all_status_writes u = [])"
  by (rule postI[where u="[EvContainerWait cid]"]) (simp_all add: waitForContainer_run)

lemma post_runStep:
  assumes ok: "store_ok w"
  shows "post (runStep w client job step repoPath) (step_post step repoPath)"
  unfolding runStep_def
  apply (rule post_bind[OF post_ensureImage])
  subgoal for r1 u1
    apply (cases r1)
     prefer 2 apply (simp add: post_return step_post_def)
    apply simp
    apply (rule post_bind[OF post_createAndStartContainer])
    subgoal for r2 u2
      apply (cases r2)
       apply (simp add: post_return step_post_def)
      apply simp
      apply (rule post_bind[OF post_streamLogs[OF ok]])
      subgoal for cid r3 u3
        apply (cases r3)
         prefer 2 apply (simp add: post_return step_post_def)
        apply simp
        apply (rule post_bind[OF post_waitForContainer])
        subgoal for r4 u4
          apply (cases r4)
           apply (simp add: post_return step_post_def)
          apply (simp split del: if_split)
          apply (rule post_bind[OF post_emit[where Q="\<lambda>a u. u = [EvContainerRemove cid]"]])
           apply simp
          apply (rule post_bind[where P="\<lambda>a u. executor_calls u = 0 \<and> created u = [] \<and> started u = []
               \<and> removed u = [] \<and> all_status_writes u = []
               \<and> filter is_StartingStep (stored_lines u) = []"])
           apply (cases "ContainerRemove client cid")
            apply (simp add: post_return)
           apply (simp add: post_PushLog[OF ok] is_StartingStep_def)
          apply (simp add: post_return step_post_def)
          done
        done
      done
    done
  done

lemma is_StartingStep_simps [simp]:
  "is_StartingStep (StartingStep i n)" "\<not> is_StartingStep (StartingJob a)"
  "\<not> is_StartingStep (CloneFailed e)" "\<not> is_StartingStep (CloneOutput a)"
  "\<not> is_StartingStep (ConfigFailed e)" "\<not> is_StartingStep (ClientFailed e)"
  "\<not> is_StartingStep (StepFailed i e)" "\<not> is_StartingStep (StepCompleted i)"
  "\<not> is_StartingStep JobCompleted" "\<not> is_StartingStep (RemoveWarning e)"
  "\<not> is_StartingStep (ContainerOutput a)"
  by (simp_all add: is_StartingStep_def)

lemma is_failure_line_simps [simp]:
  "is_failure_line (CloneFailed e)" "is_failure_line (ConfigFailed e)"
  "is_failure_line (ClientFailed e)" "is_failure_line (StepFailed i e)"
  "\<not> is_failure_line (StartingStep i n)" "\<not> is_failure_line (StartingJob a)"
  "\<not> is_failure_line (CloneOutput a)" "\<not> is_failure_line (StepCompleted i)"
  "\<not> is_failure_line JobCompleted" "\<not> is_failure_line (RemoveWarning e)"
  "\<not> is_failure_line (ContainerOutput a)"
  by (simp_all add: is_failure_line_def)

lemma map_upt_shift:
  "map (\<lambda>j. F (i0 + j) ((s # rest) ! j)) [0..<Suc n]
     = F i0 s # map (\<lambda>j. F (Suc i0 + j) (rest ! j)) [0..<n]"
  by (simp add: map_upt_Suc del: upt_Suc)

lemma runStep_run:
  assumes ok: "store_ok w" and r: "returns (runStep w client job step repoPath) a"
  shows "runStep w client job step repoPath t
           = Ret a (t @ events_of (runStep w client job step repoPath))"
    and "step_post step repoPath a (events_of (runStep w client job step repoPath))"
  using smooth_run[OF post_smooth[OF post_runStep[OF ok]] r]
    post_returns[OF post_runStep[OF ok] r] by simp_all

lemma step_loop_fail_now:
  assumes ok: "store_ok w"
    and r: "returns (runStep w (client i) job step repoPath) (Some e)"
  shows "step_loop w client job repoPath i (step # rest) t =
     Ret False (t @ [DbInsertLog (Id job) (StartingStep (i + 1) (StepName step)),
                     Println (StartingStep (i + 1) (StepName step))]
                  @ events_of (runStep w (client i) job step repoPath)
                  @ fail_events job (StepFailed (i + 1) e))"
  by (simp add: bind_def return_def PushLog_ok[OF ok] updateJobStatus_ok[OF ok]
      runStep_run(1)[OF ok r] fail_events_def)

lemma step_loop_pass_now:
  assumes ok: "store_ok w"
    and r: "returns (runStep w (client i) job step repoPath) None"
  shows "step_loop w client job repoPath i (step # rest) t =
     step_loop w client job repoPath (i + 1) rest
       (t @ pass_events w (client i) job i step repoPath)"
  by (simp add: bind_def return_def PushLog_ok[OF ok] runStep_run(1)[OF ok r] pass_events_def)

lemma pass_events_obs:
  assumes ok: "store_ok w"
    and r: "returns (runStep w client job step repoPath) None"
  shows "filter is_StartingStep (stored_lines (pass_events w client job i step repoPath))
           = [StartingStep (i + 1) (StepName step)]"
    and "executor_calls (pass_events w client job i step repoPath) = 1"
    and "created (pass_events w client job i step repoPath) = [step_cfg repoPath step]"
    and "all_status_writes (pass_events w client job i step repoPath) = []"
  using runStep_run(2)[OF ok r]
  by (simp_all add: pass_events_def step_post_def step_cfg_def)

lemma loop_fail_fast:
  assumes ok: "store_ok w"
  shows "k < length steps \<Longrightarrow>
    (\<forall>j<k. returns (runStep w (client (i0 + j)) job (steps ! j) repoPath) None) \<Longrightarrow>
    returns (runStep w (client (i0 + k)) job (steps ! k) repoPath) (Some e) \<Longrightarrow>
    \<exists>u u'. step_loop w client job repoPath i0 steps t = Ret False (t @ u)
       \<and> filter is_StartingStep (stored_lines u)
             = map (\<lambda>j. StartingStep (i0 + j + 1) (StepName (steps ! j))) [0..<Suc k]
       \<and> executor_calls u = Suc k
       \<and> (created u = map (step_cfg repoPath) (take k steps)
              \<or> created u = map (step_cfg repoPath) (take (Suc k) steps))
       \<and> u = u' @ fail_events job (StepFailed (i0 + k + 1) e)
       \<and> all_status_writes u' = []"
proof (induction steps arbitrary: i0 k t)
  case Nil
  then show ?case by simp
next
  case (Cons s rest)
  show ?case
  proof (cases k)
    case 0
    with Cons.prems have r: "returns (runStep w (client i0) job s repoPath) (Some e)" by simp
    let ?u' = "[DbInsertLog (Id job) (StartingStep (i0 + 1) (StepName s)),
                Println (StartingStep (i0 + 1) (StepName s))]
               @ events_of (runStep w (client i0) job s repoPath)"
    note sp = runStep_run(2)[OF ok r]
    have run: "step_loop w client job repoPath i0 (s # rest) t
                 = Ret False (t @ ?u' @ fail_events job (StepFailed (i0 + 1) e))"
      using step_loop_fail_now[where client=client and i=i0, OF ok r] by simp
    have 1: "filter is_StartingStep (stored_lines (?u' @ fail_events job (StepFailed (i0 + 1) e)))
               = [StartingStep (i0 + 1) (StepName s)]"
      using sp by (simp add: step_post_def fail_events_def)
    have 2: "executor_calls (?u' @ fail_events job (StepFailed (i0 + 1) e)) = 1"
      using sp by (simp add: step_post_def fail_events_def)
    have 3: "created (?u' @ fail_events job (StepFailed (i0 + 1) e)) = []
           \<or> created (?u' @ fail_events job (StepFailed (i0 + 1) e)) = [step_cfg repoPath s]"
      using sp by (simp add: step_post_def fail_events_def step_cfg_def)
    have 4: "all_status_writes ?u' = []"
      using sp by (simp add: step_post_def)
    show ?thesis
      apply (rule exI[where x="?u' @ fail_events job (StepFailed (i0 + 1) e)"])
      apply (rule exI[where x="?u'"])
      using run 1 2 3 4 0 by (simp add: take_Suc_Cons)
  next
    case (Suc k')
    from Cons.prems Suc have r: "returns (runStep w (client i0) job s repoPath) None" by auto
    from Cons.prems Suc have k': "k' < length rest" by simp
    from Cons.prems Suc have pass: "\<forall>j<k'. returns (runStep w (client (Suc i0 + j)) job (rest ! j) repoPath) None"
      by auto
    from Cons.prems Suc have fail: "returns (runStep w (client (Suc i0 + k')) job (rest ! k') repoPath) (Some e)"
      by simp
    let ?p = "pass_events w (client i0) job i0 s repoPath"
    from Cons.IH[OF k' pass fail, of "t @ ?p"] obtain u u' where
      run: "step_loop w client job repoPath (Suc i0) rest (t @ ?p) = Ret False ((t @ ?p) @ u)"
      and l: "filter is_StartingStep (stored_lines u)
             = map (\<lambda>j. StartingStep (Suc i0 + j + 1) (StepName (rest ! j))) [0..<Suc k']"
      and c: "executor_calls u = Suc k'"
      and cr: "created u = map (step_cfg repoPath) (take k' rest)
              \<or> created u = map (step_cfg repoPath) (take (Suc k') rest)"
      and u: "u = u' @ fail_events job (StepFailed (Suc i0 + k' + 1) e)"
      and sw: "all_status_writes u' = []"
      by blast
    note po = pass_events_obs[OF ok r, of i0]
    have run': "step_loop w client job repoPath i0 (s # rest) t = Ret False (t @ ?p @ u)"
      using step_loop_pass_now[where client=client and i=i0, OF ok r, of rest t] run by simp
    have 1: "filter is_StartingStep (stored_lines (?p @ u))
               = map (\<lambda>j. StartingStep (i0 + j + 1) (StepName ((s # rest) ! j))) [0..<Suc k]"
      unfolding Suc map_upt_shift[where F="\<lambda>i st. StartingStep (i + 1) (StepName st)"]
      using po(1) l by simp
    have 2: "executor_calls (?p @ u) = Suc k"
      using po(2) c Suc by simp
    have 3: "created (?p @ u) = map (step_cfg repoPath) (take k (s # rest))
           \<or> created (?p @ u) = map (step_cfg repoPath) (take (Suc k) (s # rest))"
      using po(3) cr Suc by auto
    have 4: "?p @ u = (?p @ u') @ fail_events job (StepFailed (i0 + k + 1) e)"
      using u Suc by simp
    have 5: "all_status_writes (?p @ u') = []"
      using po(4) sw by simp
    show ?thesis
      apply (rule exI[where x="?p @ u"])
      apply (rule exI[where x="?p @ u'"])
      using run' 1 2 3 4 5 by blast
  qed
qed

section \<open>The job runner\<close>

lemma cloneRepository_ok:
  "store_ok w \<Longrightarrow>
   cloneRepository w job t =
     (case CombinedOutput w [''git'', ''clone'', ''-b'', Branch job, Repo (Project job), repoPath_of job] of
        (out, Some e) \<Rightarrow>
          Ret (Inl (GitCloneError e out))
            (t @ [GitClone (Branch job) (Repo (Project job)) (repoPath_of job)])
      | (out, None) \<Rightarrow>
          Ret (Inr (repoPath_of job))
            (t @ [GitClone (Branch job) (Repo (Project job)) (repoPath_of job),
                  DbInsertLog (Id job) (CloneOutput out), Println (CloneOutput out)]))"
  by (simp add: cloneRepository_def Let_def bind_def emit_def return_def PushLog_ok
      split: prod.splits option.splits)

lemma cloneRepository_cases:
  "cloneRepository w job t =
     (case CombinedOutput w [''git'', ''clone'', ''-b'', Branch job, Repo (Project job), repoPath_of job] of
        (out, Some e) \<Rightarrow>
          Ret (Inl (GitCloneError e out))
            (t @ [GitClone (Branch job) (Repo (Project job)) (repoPath_of job)])
      | (out, None) \<Rightarrow>
          (case db_exec_err w (Suc (length t)) of
             Some e \<Rightarrow>
               Exit (t @ [GitClone (Branch job) (Repo (Project job)) (repoPath_of job), Fatal e])
           | None \<Rightarrow>
               Ret (Inr (repoPath_of job))
                 (t @ [GitClone (Branch job) (Repo (Project job)) (repoPath_of job),
                       DbInsertLog (Id job) (CloneOutput out), Println (CloneOutput out)])))"
  by (simp add: cloneRepository_def Let_def bind_def emit_def return_def PushLog_def
      inertLog_def db_Exec_def split: prod.splits option.splits)

lemma post_cloneRepository:
  assumes ok: "store_ok w"
  shows "post (cloneRepository w job)
     (\<lambda>r u. executor_calls u = 0 \<and> filter is_StartingStep (stored_lines u) = []
           \<and> created u = [] \<and> all_status_writes u = [])"
proof (cases "CombinedOutput w [''git'', ''clone'', ''-b'', Branch job, Repo (Project job), repoPath_of job]")
  case (Pair out err)
  show ?thesis
  proof (cases err)
    case None
    with Pair show ?thesis
      by (intro postI[where a="Inr (repoPath_of job)"
            and u="[GitClone (Branch job) (Repo (Project job)) (repoPath_of job),
                  DbInsertLog (Id job) (CloneOutput out), Println (CloneOutput out)]"])
        (simp_all add: cloneRepository_ok[OF ok])
  next
    case (Some e)
    with Pair show ?thesis
      by (intro postI[where a="Inl (GitCloneError e out)"
            and u="[GitClone (Branch job) (Repo (Project job)) (repoPath_of job)]"])
        (simp_all add: cloneRepository_ok[OF ok])
  qed
qed

lemma cloneRepository_run:
  assumes ok: "store_ok w" and r: "returns (cloneRepository w job) a"
  shows "cloneRepository w job t = Ret a (t @ events_of (cloneRepository w job))"
    and "executor_calls (events_of (cloneRepository w job)) = 0"
    and "filter is_StartingStep (stored_lines (events_of (cloneRepository w job))) = []"
    and "created (events_of (cloneRepository w job)) = []"
    and "all_status_writes (events_of (cloneRepository w job)) = []"
  using smooth_run[OF post_smooth[OF post_cloneRepository[OF ok]] r]
    post_returns[OF post_cloneRepository[OF ok] r] by simp_all

lemma head_events_obs:
  assumes ok: "store_ok w" and r: "returns (cloneRepository w job) a"
  shows "executor_calls (head_events w job) = 0"
    and "filter is_StartingStep (stored_lines (head_events w job)) = []"
    and "created (head_events w job) = []"
    and "all_status_writes (head_events w job) = []"
  using cloneRepository_run(2-5)[OF ok r] by (simp_all add: head_events_def)

lemma Run_reaches_loop:
  assumes ok: "store_ok w"
    and clone: "returns (cloneRepository w job) (Inr repoPath)"
    and load: "loadConfig w repoPath = Inr config"
    and cli: "NewClientWithOpts w = Inr client"
  shows "Run w job t =
     bind (step_loop w client job repoPath 0 (Steps config))
       (\<lambda>finished. if finished
          then bind (PushLog w job JobCompleted) (\<lambda>_. updateJobStatus w job 0)
          else return ()) (t @ head_events w job)"
  by (simp add: Run_def bind_def[of "PushLog w job (StartingJob (Name (Project job)))"]
      bind_def[of "cloneRepository w job"] PushLog_ok[OF ok]
      cloneRepository_run(1)[OF ok clone] load cli head_events_def)

lemma Run_fail_fast_aux:
  assumes ok: "store_ok w"
    and clone: "returns (cloneRepository w job) (Inr repoPath)"
    and load: "loadConfig w repoPath = Inr config"
    and cli: "NewClientWithOpts w = Inr client"
    and k1: "1 \<le> k" and kN: "k \<le> length (Steps config)"
    and pass: "\<forall>i<k - 1. returns (runStep w (client i) job (Steps config ! i) repoPath) None"
    and fail: "returns (runStep w (client (k - 1)) job (Steps config ! (k - 1)) repoPath) (Some e)"
  shows "\<exists>T U. Run w job t = Ret () (t @ T)
     \<and> filter is_StartingStep (stored_lines T)
         = map (\<lambda>i. StartingStep (i + 1) (StepName (Steps config ! i))) [0..<k]
     \<and> executor_calls T = k
     \<and> (created T = map (step_cfg repoPath) (take (k - 1) (Steps config))
          \<or> created T = map (step_cfg repoPath) (take k (Steps config)))
     \<and> T = U @ [DbInsertLog (Id job) (StepFailed k e), Println (StepFailed k e),
                DbUpdateStatus (Id job) (- 1)]
     \<and> all_status_writes U = []"
proof -
  from k1 kN have k': "k - 1 < length (Steps config)" by simp
  from k1 have Sk: "Suc (k - 1) = k" by simp
  from pass have pass': "\<forall>j<k - 1. returns (runStep w (client (0 + j)) job (Steps config ! j) repoPath) None"
    by simp
  from fail have fail': "returns (runStep w (client (0 + (k - 1))) job (Steps config ! (k - 1)) repoPath) (Some e)"
    by simp
  from loop_fail_fast[OF ok k' pass' fail', of "t @ head_events w job"] obtain u u' where
    run: "step_loop w client job repoPath 0 (Steps config) (t @ head_events w job)
            = Ret False ((t @ head_events w job) @ u)"
    and l: "filter is_StartingStep (stored_lines u)
             = map (\<lambda>j. StartingStep (0 + j + 1) (StepName (Steps config ! j))) [0..<Suc (k - 1)]"
    and c: "executor_calls u = Suc (k - 1)"
    and cr: "created u = map (step_cfg repoPath) (take (k - 1) (Steps config))
              \<or> created u = map (step_cfg repoPath) (take (Suc (k - 1)) (Steps config))"
    and u: "u = u' @ fail_events job (StepFailed (0 + (k - 1) + 1) e)"
    and sw: "all_status_writes u' = []"
    by blast
  note ho = head_events_obs[OF ok clone]
  let ?T = "head_events w job @ u"
  have 0: "Run w job t = Ret () (t @ ?T)"
    by (simp add: Run_reaches_loop[OF ok clone load cli] bind_def run return_def)
  have 1: "filter is_StartingStep (stored_lines ?T)
         = map (\<lambda>i. StartingStep (i + 1) (StepName (Steps config ! i))) [0..<k]"
    using ho(2) l Sk by simp
  have 2: "executor_calls ?T = k" using ho(1) c Sk by simp
  have 3: "created ?T = map (step_cfg repoPath) (take (k - 1) (Steps config))
          \<or> created ?T = map (step_cfg repoPath) (take k (Steps config))"
    using ho(3) cr Sk by simp
  have 4: "?T = (head_events w job @ u') @ [DbInsertLog (Id job) (StepFailed k e), Println (StepFailed k e),
                DbUpdateStatus (Id job) (- 1)]"
    using u Sk by (simp add: fail_events_def)
  have 5: "all_status_writes (head_events w job @ u') = []"
    using ho(4) sw by simp
  show ?thesis
    apply (rule exI[where x="?T"])
    apply (rule exI[where x="head_events w job @ u'"])
    using 0 1 2 3 4 5 by blast
qed

lemma runStep_after_wait:
  assumes ok: "store_ok w"
    and img: "returns (ensureImage client (Image step)) None"
    and start: "returns (createAndStartContainer client step repoPath) (Inr cid)"
    and stream: "returns (streamLogs w client job cid) None"
    and wait: "ContainerWait client cid = Inr code"
  shows "returns (runStep w client job step repoPath)
           (if code \<noteq> 0 then Some (StatusCodeError code) else None)
       \<and> error_text (StatusCodeError code)
           = ''step failed with status code: '' @ format_int64 code
       \<and> removed (events_of (runStep w client job step repoPath)) = [cid]"
proof -
  note r1 = smooth_run[OF smooth_ensureImage img]
  note r2 = smooth_run[OF smooth_createAndStartContainer start]
  note r3 = smooth_run[OF smooth_streamLogs[OF ok] stream]
  note o1 = post_returns[OF post_ensureImage img]
  note o2 = post_returns[OF post_createAndStartContainer start]
  note o3 = post_returns[OF post_streamLogs[OF ok] stream]
  have run: "runStep w client job step repoPath [] =
      Ret (if code \<noteq> 0 then Some (StatusCodeError code) else None)
        (events_of (ensureImage client (Image step))
         @ events_of (createAndStartContainer client step repoPath)
         @ events_of (streamLogs w client job cid)
         @ [EvContainerWait cid, EvContainerRemove cid]
         @ (case ContainerRemove client cid of
              Some e \<Rightarrow> [DbInsertLog (Id job) (RemoveWarning e), Println (RemoveWarning e)]
            | None \<Rightarrow> []))"
    by (cases "ContainerRemove client cid")
      (simp_all add: runStep_def bind_def r1 r2 r3 waitForContainer_run wait emit_def
        return_def PushLog_ok[OF ok])
  have 1: "returns (runStep w client job step repoPath)
           (if code \<noteq> 0 then Some (StatusCodeError code) else None)"
    unfolding returns_def run by simp
  have ev: "events_of (runStep w client job step repoPath) =
         events_of (ensureImage client (Image step))
         @ events_of (createAndStartContainer client step repoPath)
         @ events_of (streamLogs w client job cid)
         @ [EvContainerWait cid, EvContainerRemove cid]
         @ (case ContainerRemove client cid of
              Some e \<Rightarrow> [DbInsertLog (Id job) (RemoveWarning e), Println (RemoveWarning e)]
            | None \<Rightarrow> [])"
    unfolding events_of_def[of "runStep w client job step repoPath"] run by simp
  have 2: "removed (events_of (runStep w client job step repoPath)) = [cid]"
    unfolding ev using o1 o2 o3
    by (cases "ContainerRemove client cid") simp_all
  from 1 2 show ?thesis by simp
qed

lemma steps_first_failure:
  assumes ok: "store_ok w"
  shows "(\<forall>j<length steps. returns (runStep w (client j) job (steps ! j) p) None)
    \<or> (\<exists>k e. k < length steps
         \<and> (\<forall>j<k. returns (runStep w (client j) job (steps ! j) p) None)
         \<and> returns (runStep w (client k) job (steps ! k) p) (Some e))"
proof (cases "\<forall>j<length steps. returns (runStep w (client j) job (steps ! j) p) None")
  case True
  then show ?thesis by blast
next
  case False
  define P where "P j = (j < length steps \<and> \<not> returns (runStep w (client j) job (steps ! j) p) None)" for j
  from False have "\<exists>j. P j" by (auto simp: P_def)
  then obtain k where k: "P k" and least: "\<forall>j<k. \<not> P j"
    using exists_least_iff[of P] by blast
  from smooth_returns[OF post_smooth[OF post_runStep[OF ok]]]
  obtain r where r: "returns (runStep w (client k) job (steps ! k) p) r" by blast
  from k r obtain e where e: "r = Some e" by (cases r) (auto simp: P_def)
  from k have kl: "k < length steps" by (simp add: P_def)
  from least kl have "\<forall>j<k. returns (runStep w (client j) job (steps ! j) p) None"
    by (auto simp: P_def)
  with kl r e show ?thesis by blast
qed

lemma Run_empty_pipeline_aux:
  assumes ok: "store_ok w"
    and clone: "returns (cloneRepository w job) (Inr repoPath)"
    and load: "loadConfig w repoPath = Inr config"
    and empty: "Steps config = []"
    and cli: "NewClientWithOpts w = Inr client"
  shows "\<exists>T U. Run w job t = Ret () (t @ T)
     \<and> filter is_StartingStep (stored_lines T) = []
     \<and> executor_calls T = 0
     \<and> created T = []
     \<and> T = U @ [DbInsertLog (Id job) JobCompleted, Println JobCompleted,
                DbUpdateStatus (Id job) 0]
     \<and> all_status_writes U = []
     \<and> render JobCompleted = ''Job completed successfully''"
proof -
  note ho = head_events_obs[OF ok clone]
  let ?T = "head_events w job @ [DbInsertLog (Id job) JobCompleted, Println JobCompleted,
                DbUpdateStatus (Id job) 0]"
  have 0: "Run w job t = Ret () (t @ ?T)"
    by (simp add: Run_reaches_loop[OF ok clone load cli] empty bind_def return_def
        PushLog_ok[OF ok] updateJobStatus_ok[OF ok])
  show ?thesis
    apply (rule exI[where x="?T"])
    apply (rule exI[where x="head_events w job"])
    using 0 ho by simp
qed

lemma loop_all_pass:
  assumes ok: "store_ok w"
  shows "(\<forall>j<length steps. returns (runStep w (client (i0 + j)) job (steps ! j) repoPath) None) \<Longrightarrow>
    \<exists>u. step_loop w client job repoPath i0 steps t = Ret True (t @ u)
       \<and> filter is_StartingStep (stored_lines u)
             = map (\<lambda>j. StartingStep (i0 + j + 1) (StepName (steps ! j))) [0..<length steps]
       \<and> executor_calls u = length steps
       \<and> created u = map (step_cfg repoPath) steps
       \<and> all_status_writes u = []"
proof (induction steps arbitrary: i0 t)
  case Nil
  show ?case by (simp add: return_def)
next
  case (Cons s rest)
  from Cons.prems have r: "returns (runStep w (client i0) job s repoPath) None" by auto
  from Cons.prems have pass: "\<forall>j<length rest. returns (runStep w (client (Suc i0 + j)) job (rest ! j) repoPath) None"
    by auto
  let ?p = "pass_events w (client i0) job i0 s repoPath"
  from Cons.IH[OF pass, of "t @ ?p"] obtain u where
    run: "step_loop w client job repoPath (Suc i0) rest (t @ ?p) = Ret True ((t @ ?p) @ u)"
    and l: "filter is_StartingStep (stored_lines u)
             = map (\<lambda>j. StartingStep (Suc i0 + j + 1) (StepName (rest ! j))) [0..<length rest]"
    and c: "executor_calls u = length rest"
    and cr: "created u = map (step_cfg repoPath) rest"
    and sw: "all_status_writes u = []"
    by blast
  note po = pass_events_obs[OF ok r, of i0]
  have run': "step_loop w client job repoPath i0 (s # rest) t = Ret True (t @ ?p @ u)"
    using step_loop_pass_now[where client=client and i=i0, OF ok r, of rest t] run by simp
  have 1: "filter is_StartingStep (stored_lines (?p @ u))
             = map (\<lambda>j. StartingStep (i0 + j + 1) (StepName ((s # rest) ! j))) [0..<length (s # rest)]"
    unfolding length_Cons map_upt_shift[where F="\<lambda>i st. StartingStep (i + 1) (StepName st)"]
    using po(1) l by simp
  have 2: "executor_calls (?p @ u) = length (s # rest)" using po(2) c by simp
  have 3: "created (?p @ u) = map (step_cfg repoPath) (s # rest)" using po(3) cr by simp
  have 4: "all_status_writes (?p @ u) = []" using po(4) sw by simp
  show ?case
    apply (rule exI[where x="?p @ u"])
    using run' 1 2 3 4 by blast
qed

lemma Run_all_pass:
  assumes ok: "store_ok w"
    and clone: "returns (cloneRepository w job) (Inr repoPath)"
    and load: "loadConfig w repoPath = Inr config"
    and cli: "NewClientWithOpts w = Inr client"
    and pass: "\<forall>i<length (Steps config).
                 returns (runStep w (client i) job (Steps config ! i) repoPath) None"
  shows "\<exists>T U. Run w job t = Ret () (t @ T)
     \<and> filter is_StartingStep (stored_lines T)
         = map (\<lambda>i. StartingStep (i + 1) (StepName (Steps config ! i))) [0..<length (Steps config)]
     \<and> executor_calls T = length (Steps config)
     \<and> created T = map (step_cfg repoPath) (Steps config)
     \<and> T = U @ [DbInsertLog (Id job) JobCompleted, Println JobCompleted,
                DbUpdateStatus (Id job) 0]
     \<and> all_status_writes U = []"
proof -
  from pass have pass': "\<forall>j<length (Steps config).
      returns (runStep w (client (0 + j)) job (Steps config ! j) repoPath) None" by simp
  from loop_all_pass[OF ok pass', of "t @ head_events w job"] obtain u where
    run: "step_loop w client job repoPath 0 (Steps config) (t @ head_events w job)
            = Ret True ((t @ head_events w job) @ u)"
    and l: "filter is_StartingStep (stored_lines u)
             = map (\<lambda>j. StartingStep (0 + j + 1) (StepName (Steps config ! j))) [0..<length (Steps config)]"
    and c: "executor_calls u = length (Steps config)"
    and cr: "created u = map (step_cfg repoPath) (Steps config)"
    and sw: "all_status_writes u = []"
    by blast
  note ho = head_events_obs[OF ok clone]
  let ?U = "head_events w job @ u"
  let ?T = "?U @ [DbInsertLog (Id job) JobCompleted, Println JobCompleted,
                DbUpdateStatus (Id job) 0]"
  have 0: "Run w job t = Ret () (t @ ?T)"
    by (simp add: Run_reaches_loop[OF ok clone load cli] bind_def run return_def
        PushLog_ok[OF ok] updateJobStatus_ok[OF ok])
  have 1: "filter is_StartingStep (stored_lines ?T)
         = map (\<lambda>i. StartingStep (i + 1) (StepName (Steps config ! i))) [0..<length (Steps config)]"
    using ho(2) l by simp
  have 2: "executor_calls ?T = length (Steps config)" using ho(1) c by simp
  have 3: "created ?T = map (step_cfg repoPath) (Steps config)" using ho(3) cr by simp
  have 5: "all_status_writes ?U = []" using ho(4) sw by simp
  show ?thesis
    apply (rule exI[where x="?T"])
    apply (rule exI[where x="?U"])
    using 0 1 2 3 5 by blast
qed

lemma Run_status_last_aux:
  assumes ok: "store_ok w"
  shows "\<exists>U l c. Run w job t
        = Ret () (t @ U @ [DbInsertLog (Id job) l, Println l, DbUpdateStatus (Id job) c])
     \<and> all_status_writes U = []
     \<and> all_status_writes (U @ [DbInsertLog (Id job) l, Println l, DbUpdateStatus (Id job) c])
         = [(Id job, c)]
     \<and> ((\<exists>e. returns (cloneRepository w job) (Inl e) \<and> l = CloneFailed e \<and> c = - 1)
      \<or> (\<exists>p e. returns (cloneRepository w job) (Inr p) \<and> loadConfig w p = Inl e
              \<and> l = ConfigFailed e \<and> c = - 1)
      \<or> (\<exists>p cfg e. returns (cloneRepository w job) (Inr p) \<and> loadConfig w p = Inr cfg
              \<and> NewClientWithOpts w = Inl e \<and> l = ClientFailed e \<and> c = - 1)
      \<or> (\<exists>p cfg client k e. returns (cloneRepository w job) (Inr p)
              \<and> loadConfig w p = Inr cfg \<and> NewClientWithOpts w = Inr client
              \<and> k < length (Steps cfg)
              \<and> (\<forall>i<k. returns (runStep w (client i) job (Steps cfg ! i) p) None)
              \<and> returns (runStep w (client k) job (Steps cfg ! k) p) (Some e)
              \<and> l = StepFailed (k + 1) e \<and> c = - 1)
      \<or> (\<exists>p cfg client. returns (cloneRepository w job) (Inr p)
              \<and> loadConfig w p = Inr cfg \<and> NewClientWithOpts w = Inr client
              \<and> (\<forall>i<length (Steps cfg).
                    returns (runStep w (client i) job (Steps cfg ! i) p) None)
              \<and> l = JobCompleted \<and> c = 0))"
proof -
  from smooth_returns[OF post_smooth[OF post_cloneRepository[OF ok]]]
  obtain r where r: "returns (cloneRepository w job) r" by blast
  note cr = cloneRepository_run[OF ok r]
  have hsw: "all_status_writes (head_events w job) = []"
    using head_events_obs(4)[OF ok r] .
  have start: "\<And>f. bind (PushLog w job (StartingJob (Name (Project job))))
                  (\<lambda>_. bind (cloneRepository w job) f) t = f r (t @ head_events w job)"
    by (simp add: bind_def PushLog_ok[OF ok] cr(1) head_events_def)
  show ?thesis
  proof (cases r)
    case (Inl e)
    have "Run w job t = Ret () (t @ head_events w job
            @ [DbInsertLog (Id job) (CloneFailed e), Println (CloneFailed e),
               DbUpdateStatus (Id job) (- 1)])"
      unfolding Run_def start
      by (simp add: Inl bind_def PushLog_ok[OF ok] updateJobStatus_ok[OF ok])
    with hsw r Inl show ?thesis
      apply -
      apply (rule exI[where x="head_events w job"])
      apply (rule exI[where x="CloneFailed e"])
      apply (rule exI[where x="- 1"])
      apply simp
      done
  next
    case (Inr p)
    with r have rp: "returns (cloneRepository w job) (Inr p)" by simp
    show ?thesis
    proof (cases "loadConfig w p")
      case (Inl e)
      have "Run w job t = Ret () (t @ head_events w job
            @ [DbInsertLog (Id job) (ConfigFailed e), Println (ConfigFailed e),
               DbUpdateStatus (Id job) (- 1)])"
        unfolding Run_def start
        by (simp add: Inr Inl bind_def PushLog_ok[OF ok] updateJobStatus_ok[OF ok])
      with hsw rp Inl show ?thesis
        apply -
        apply (rule exI[where x="head_events w job"])
        apply (rule exI[where x="ConfigFailed e"])
        apply (rule exI[where x="- 1"])
        apply simp
        apply blast
        done
    next
      case cfg: (Inr cfg)
      show ?thesis
      proof (cases "NewClientWithOpts w")
        case (Inl e)
        have "Run w job t = Ret () (t @ head_events w job
              @ [DbInsertLog (Id job) (ClientFailed e), Println (ClientFailed e),
                 DbUpdateStatus (Id job) (- 1)])"
          unfolding Run_def start
          by (simp add: Inr cfg Inl bind_def PushLog_ok[OF ok] updateJobStatus_ok[OF ok])
        with hsw rp cfg Inl show ?thesis
          apply -
          apply (rule exI[where x="head_events w job"])
          apply (rule exI[where x="ClientFailed e"])
          apply (rule exI[where x="- 1"])
          apply simp
          apply blast
          done
      next
        case cl: (Inr client)
        from steps_first_failure[OF ok, of "Steps cfg" client job p] show ?thesis
        proof
          assume pass: "\<forall>j<length (Steps cfg).
              returns (runStep w (client j) job (Steps cfg ! j) p) None"
          from Run_all_pass[OF ok rp cfg cl pass, of t] obtain T U where
            run: "Run w job t = Ret () (t @ T)"
            and T: "T = U @ [DbInsertLog (Id job) JobCompleted, Println JobCompleted,
                DbUpdateStatus (Id job) 0]"
            and sw: "all_status_writes U = []"
            by blast
          from run T sw rp cfg cl pass show ?thesis
            apply -
            apply (rule exI[where x=U])
            apply (rule exI[where x="JobCompleted"])
            apply (rule exI[where x="0"])
            apply simp
            apply blast
            done
        next
          assume "\<exists>k e. k < length (Steps cfg)
               \<and> (\<forall>j<k. returns (runStep w (client j) job (Steps cfg ! j) p) None)
               \<and> returns (runStep w (client k) job (Steps cfg ! k) p) (Some e)"
          then obtain k e where k: "k < length (Steps cfg)"
            and pass: "\<forall>j<k. returns (runStep w (client j) job (Steps cfg ! j) p) None"
            and rk: "returns (runStep w (client k) job (Steps cfg ! k) p) (Some e)"
            by blast
          have k1: "1 \<le> Suc k" by simp
          from k have kN: "Suc k \<le> length (Steps cfg)" by simp
          from pass have pass': "\<forall>i<Suc k - 1.
              returns (runStep w (client i) job (Steps cfg ! i) p) None" by simp
          from rk have fail': "returns (runStep w (client (Suc k - 1)) job
              (Steps cfg ! (Suc k - 1)) p) (Some e)" by simp
          from Run_fail_fast_aux[OF ok rp cfg cl k1 kN pass' fail', of t] obtain T U where
            run: "Run w job t = Ret () (t @ T)"
            and T: "T = U @ [DbInsertLog (Id job) (StepFailed (Suc k) e),
                Println (StepFailed (Suc k) e), DbUpdateStatus (Id job) (- 1)]"
            and sw: "all_status_writes U = []"
            by blast
          from run T sw rp cfg cl k pass rk show ?thesis
            apply -
            apply (rule exI[where x=U])
            apply (rule exI[where x="StepFailed (k + 1) e"])
            apply (rule exI[where x="- 1"])
            apply simp
            apply blast
            done
        qed
      qed
    qed
  qed
qed

lemma Run_starts_reached_step:
  assumes ok: "store_ok w"
    and clone: "returns (cloneRepository w job) (Inr repoPath)"
    and load: "loadConfig w repoPath = Inr config"
    and cli: "NewClientWithOpts w = Inr client"
    and i: "i < length (Steps config)"
    and pass: "\<forall>j<i. returns (runStep w (client j) job (Steps config ! j) repoPath) None"
  shows "\<exists>T. Run w job t = Ret () (t @ T)
     \<and> StartingStep (i + 1) (StepName (Steps config ! i)) \<in> set (stored_lines T)
     \<and> i < executor_calls T"
proof -
  let ?f = "\<lambda>i. StartingStep (i + 1) (StepName (Steps config ! i))"
  have "\<exists>T n. Run w job t = Ret () (t @ T)
      \<and> filter is_StartingStep (stored_lines T) = map ?f [0..<n]
      \<and> executor_calls T = n \<and> i < n"
    using steps_first_failure[OF ok, of "Steps config" client job repoPath]
  proof
    assume all: "\<forall>j<length (Steps config).
        returns (runStep w (client j) job (Steps config ! j) repoPath) None"
    from Run_all_pass[OF ok clone load cli all, of t] obtain T where
      run: "Run w job t = Ret () (t @ T)"
      and lines: "filter is_StartingStep (stored_lines T) = map ?f [0..<length (Steps config)]"
      and calls: "executor_calls T = length (Steps config)"
      by blast
    with i show ?thesis by blast
  next
    assume "\<exists>k e. k < length (Steps config)
         \<and> (\<forall>j<k. returns (runStep w (client j) job (Steps config ! j) repoPath) None)
         \<and> returns (runStep w (client k) job (Steps config ! k) repoPath) (Some e)"
    then obtain k e where k: "k < length (Steps config)"
      and pk: "\<forall>j<k. returns (runStep w (client j) job (Steps config ! j) repoPath) None"
      and fk: "returns (runStep w (client k) job (Steps config ! k) repoPath) (Some e)"
      by blast
    have ik: "i \<le> k"
    proof (rule ccontr)
      assume "\<not> i \<le> k"
      with pass have "returns (runStep w (client k) job (Steps config ! k) repoPath) None"
        by simp
      from returns_unique[OF this fk] show False by simp
    qed
    have k1: "1 \<le> Suc k" by simp
    from k have kN: "Suc k \<le> length (Steps config)" by simp
    from pk have pass': "\<forall>i<Suc k - 1.
        returns (runStep w (client i) job (Steps config ! i) repoPath) None" by simp
    from fk have fail': "returns (runStep w (client (Suc k - 1)) job
        (Steps config ! (Suc k - 1)) repoPath) (Some e)" by simp
    from Run_fail_fast_aux[OF ok clone load cli k1 kN pass' fail', of t] obtain T where
      run: "Run w job t = Ret () (t @ T)"
      and lines: "filter is_StartingStep (stored_lines T) = map ?f [0..<Suc k]"
      and calls: "executor_calls T = Suc k"
      by blast
    from ik have "i < Suc k" by simp
    with run lines calls show ?thesis by blast
  qed
  then obtain T n where run: "Run w job t = Ret () (t @ T)"
    and lines: "filter is_StartingStep (stored_lines T) = map ?f [0..<n]"
    and calls: "executor_calls T = n" and n: "i < n"
    by blast
  from n have "?f i \<in> set (map ?f [0..<n])" by simp
  with lines have "?f i \<in> set (filter is_StartingStep (stored_lines T))" by simp
  then have "?f i \<in> set (stored_lines T)" by simp
  with run calls n show ?thesis by blast
qed

section \<open>Loading the manifest\<close>

lemma decode_string_plain:
  "plain_value v \<Longrightarrow> decode_string v cur = (text_of v, [])"
  by (cases v) (simp_all add: plain_value_def text_of_def)

lemma decode_Step_fields_plain:
  "plain_object kvs \<Longrightarrow>
   decode_Step_fields kvs st =
     (\<lparr>StepName = (case map_of (rev kvs) ''name'' of None \<Rightarrow> StepName st | Some v \<Rightarrow> text_of v),
       Image = (case map_of (rev kvs) ''image'' of None \<Rightarrow> Image st | Some v \<Rightarrow> text_of v),
       Runs = (case map_of (rev kvs) ''runs'' of None \<Rightarrow> Runs st | Some v \<Rightarrow> text_of v)\<rparr>, [])"
proof (induction kvs arbitrary: st)
  case Nil
  show ?case by simp
next
  case (Cons kv kvs)
  obtain k v where kv: "kv = (k, v)" by (cases kv)
  from Cons.prems kv have pv: "plain_value v" and po: "plain_object kvs"
    by (simp_all add: plain_object_def)
  note ih = Cons.IH[OF po]
  show ?case
    unfolding kv
    by (auto simp: ih decode_string_plain[OF pv] map_add_def split: option.splits)
qed

lemma decode_Step_plain:
  "plain_object kvs \<Longrightarrow> decode_Step (YMap kvs) = (Some (step_of_object kvs), [])"
  by (auto simp: decode_Step_fields_plain step_of_object_def field_text_def zero_Step_def
      split: option.splits)

lemma decode_Step_seq_plain:
  "list_all plain_object objs \<Longrightarrow>
   decode_Step_seq (map YMap objs) = (map step_of_object objs, [])"
  by (induction objs) (simp_all add: decode_Step_plain del: decode_Step.simps)

lemma loadConfig_plain:
  assumes read: "ReadFile w (filepath_Join w repoPath ''duck-ci.yml'') = Inr data"
    and parse: "yaml_parse w data = Inr (YMap [(''steps'', YSeq (map YMap objs))])"
    and plain: "list_all plain_object objs"
  shows "loadConfig w repoPath = Inr \<lparr>Steps = map step_of_object objs\<rparr>"
  by (simp add: loadConfig_def yaml_Unmarshal_def read parse decode_Step_seq_plain[OF plain]
      zero_Config_def)

lemma field_text_absent: "k \<notin> fst ` set kvs \<Longrightarrow> field_text kvs k = []"
proof -
  assume "k \<notin> fst ` set kvs"
  then have "map_of (rev kvs) k = None" by (simp add: map_of_eq_None_iff)
  then show ?thesis by (simp add: field_text_def)
qed

lemma step_of_object_absent:
  "k \<notin> fst ` set kvs \<or> map_of (rev kvs) k = Some YNull \<Longrightarrow> field_text kvs k = []"
  by (auto simp: field_text_absent) (simp add: field_text_def text_of_def)

lemma snd_decode_Config_fields_Cons:
  "snd (decode_Config_fields ((k, v) # kvs) c) =
     (if k = ''steps'' then snd (decode_Steps v (Steps c)) else [])
     @ snd (decode_Config_fields kvs
              (if k = ''steps'' then c\<lparr>Steps := fst (decode_Steps v (Steps c))\<rparr> else c))"
  by (simp split: prod.splits)

lemma decode_Steps_not_a_list: "not_a_list v \<Longrightarrow> snd (decode_Steps v cur) \<noteq> []"
  by (cases v) (simp_all add: not_a_list_def)

lemma decode_Config_fields_errs:
  "(''steps'', v) \<in> set kvs \<Longrightarrow> not_a_list v \<Longrightarrow> snd (decode_Config_fields kvs c) \<noteq> []"
proof (induction kvs arbitrary: c)
  case Nil
  then show ?case by simp
next
  case (Cons kv kvs)
  obtain k v' where kv: "kv = (k, v')" by (cases kv)
  show ?case
  proof (cases "kv = (''steps'', v)")
    case True
    with kv have "k = ''steps''" and "v' = v" by simp_all
    with decode_Steps_not_a_list[OF Cons.prems(2)] show ?thesis
      unfolding kv snd_decode_Config_fields_Cons by simp
  next
    case False
    with Cons.prems have "(''steps'', v) \<in> set kvs" by simp
    from Cons.IH[OF this Cons.prems(2)] show ?thesis
      unfolding kv snd_decode_Config_fields_Cons by simp
  qed
qed

lemma decode_Config_fields_skip:
  "k \<noteq> ''steps'' \<Longrightarrow>
   decode_Config_fields (kvs1 @ (k, v) # kvs2) c = decode_Config_fields (kvs1 @ kvs2) c"
  by (induction kvs1 arbitrary: c) (auto split: prod.splits)

lemma loadConfig_not_a_list:
  assumes read: "ReadFile w (filepath_Join w repoPath ''duck-ci.yml'') = Inr data"
    and parse: "yaml_parse w data = Inr (YMap kvs)"
    and steps: "(''steps'', v) \<in> set kvs" and kind: "not_a_list v"
  shows "\<exists>errs. loadConfig w repoPath = Inl (ParseConfigError (TypeError errs))"
proof -
  obtain c errs where d: "decode_Config_fields kvs zero_Config = (c, errs)"
    by (cases "decode_Config_fields kvs zero_Config")
  with decode_Config_fields_errs[OF steps kind, of zero_Config] have "errs \<noteq> []" by simp
  with d show ?thesis
    by (simp add: loadConfig_def yaml_Unmarshal_def read parse)
qed

lemma loadConfig_missing_file:
  "ReadFile w (filepath_Join w repoPath ''duck-ci.yml'') = Inl e \<Longrightarrow>
   loadConfig w repoPath = Inl (ReadConfigError e)"
  by (simp add: loadConfig_def)

section \<open>Runs in a world where the store may fail\<close>

lemma no_status_simps [simp]:
  "no_status []" "no_status (xs @ ys) = (no_status xs \<and> no_status ys)"
  by (simp_all add: no_status_def)

lemma hoareI:
  "(\<And>t. case m t of Ret a u \<Rightarrow> (\<exists>v. u = t @ v \<and> Q a v)
                   | Exit u \<Rightarrow> (\<exists>v. u = t @ v \<and> no_status v)) \<Longrightarrow> hoare m Q"
  unfolding hoare_def by blast

lemma hoare_Ret: "hoare m Q \<Longrightarrow> m t = Ret a u \<Longrightarrow> \<exists>v. u = t @ v \<and> Q a v"
  unfolding hoare_def by (erule allE[where x=t]) simp

lemma hoare_Exit: "hoare m Q \<Longrightarrow> m t = Exit u \<Longrightarrow> \<exists>v. u = t @ v \<and> no_status v"
  unfolding hoare_def by (erule allE[where x=t]) simp

lemma hoare_weaken:
  assumes m: "hoare m P" and w: "\<And>a v. P a v \<Longrightarrow> Q a v"
  shows "hoare m Q"
proof (rule hoareI)
  fix t
  show "case m t of Ret a u \<Rightarrow> (\<exists>v. u = t @ v \<and> Q a v)
                  | Exit u \<Rightarrow> (\<exists>v. u = t @ v \<and> no_status v)"
  proof (cases "m t")
    case (Exit u)
    from hoare_Exit[OF m Exit] show ?thesis by (simp add: Exit)
  next
    case (Ret a u)
    from hoare_Ret[OF m Ret] w show ?thesis by (auto simp: Ret)
  qed
qed

lemma hoare_return: "Q a [] \<Longrightarrow> hoare (return a) Q"
  by (rule hoareI) (simp add: return_def)

lemma hoare_emit: "Q () [ev] \<Longrightarrow> hoare (emit ev) Q"
  by (rule hoareI) (simp add: emit_def)

lemma hoare_db_Exec: "Q () [row] \<Longrightarrow> hoare (db_Exec w row) Q"
  by (rule hoareI) (simp add: db_Exec_def no_status_def split: option.splits)

lemma hoare_bind:
  assumes m: "hoare m P"
    and f: "\<And>a. hoare (f a) (R a)"
    and q: "\<And>a v. P a v \<Longrightarrow> no_status v"
    and c: "\<And>a v b v'. P a v \<Longrightarrow> R a b v' \<Longrightarrow> Q b (v @ v')"
  shows "hoare (bind m f) Q"
proof (rule hoareI)
  fix t
  show "case bind m f t of Ret a u \<Rightarrow> (\<exists>v. u = t @ v \<and> Q a v)
                         | Exit u \<Rightarrow> (\<exists>v. u = t @ v \<and> no_status v)"
  proof (cases "m t")
    case (Exit u)
    from hoare_Exit[OF m Exit] show ?thesis by (simp add: bind_def Exit)
  next
    case (Ret a u)
    from hoare_Ret[OF m Ret] obtain v where u: "u = t @ v" and P: "P a v" by blast
    show ?thesis
    proof (cases "f a u")
      case (Exit u')
      from hoare_Exit[OF f Exit] obtain v' where u': "u' = u @ v'" and n: "no_status v'" by blast
      from Exit u' u have fa: "f a (t @ v) = Exit (t @ (v @ v'))" by simp
      from Ret u fa have "bind m f t = Exit (t @ (v @ v'))" by (simp add: bind_def)
      moreover have "no_status (v @ v')" using q[OF P] n by simp
      ultimately show ?thesis by (auto simp del: append_assoc no_status_simps)
    next
      case r: (Ret b u')
      from hoare_Ret[OF f r] obtain v' where u': "u' = u @ v'" and R: "R a b v'" by blast
      from r u' u have fa: "f a (t @ v) = Ret b (t @ (v @ v'))" by simp
      from Ret u fa have "bind m f t = Ret b (t @ (v @ v'))" by (simp add: bind_def)
      moreover have "Q b (v @ v')" using c[OF P R] .
      ultimately show ?thesis by (auto simp del: append_assoc)
    qed
  qed
qed

lemma quiet_return [simp]: "quiet (return a)"
  unfolding quiet_def by (rule hoare_return) simp

lemma quiet_bind:
  assumes m: "quiet m" and f: "\<And>a. quiet (f a)"
  shows "quiet (bind m f)"
proof -
  from m have 1: "hoare m (\<lambda>a v. no_status v)" by (simp only: quiet_def)
  from f have 2: "\<And>a. hoare (f a) (\<lambda>b v. no_status v)" by (simp only: quiet_def)
  have "hoare (bind m f) (\<lambda>a v. no_status v)"
    by (rule hoare_bind[OF 1 2]) simp_all
  then show ?thesis by (simp only: quiet_def)
qed

lemma quiet_emit: "all_status_writes [ev] = [] \<Longrightarrow> quiet (emit ev)"
  unfolding quiet_def by (rule hoare_emit) (simp add: no_status_def)

lemma quiet_db_Exec: "all_status_writes [row] = [] \<Longrightarrow> quiet (db_Exec w row)"
  unfolding quiet_def by (rule hoare_db_Exec) (simp add: no_status_def)

lemma quiet_PushLog [simp]: "quiet (PushLog w job l)"
  unfolding PushLog_def inertLog_def
  by (intro quiet_bind quiet_db_Exec quiet_emit) simp_all

lemma quiet_io_Copy_Discard [simp]: "quiet (io_Copy_Discard cs)"
  by (induction cs) (simp_all add: quiet_bind quiet_emit)

lemma quiet_scan_loop [simp]: "quiet (scan_loop w job ls)"
  by (induction ls) (simp_all add: quiet_bind)

lemma quiet_cloneRepository [simp]: "quiet (cloneRepository w job)"
  unfolding cloneRepository_def Let_def
  by (intro quiet_bind quiet_emit quiet_return quiet_PushLog
      | simp split: prod.split option.split | intro conjI impI allI)+

lemma quiet_ensureImage [simp]: "quiet (ensureImage client n)"
  unfolding ensureImage_def
  by (intro quiet_bind quiet_emit quiet_return quiet_io_Copy_Discard
      | simp split: sum.split | intro conjI impI allI)+

lemma quiet_createAndStartContainer [simp]: "quiet (createAndStartContainer client step p)"
  unfolding createAndStartContainer_def Let_def
  by (intro quiet_bind quiet_emit quiet_return
      | simp split: sum.split option.split | intro conjI impI allI)+

lemma quiet_streamLogs [simp]: "quiet (streamLogs w client job cid)"
  unfolding streamLogs_def
  by (intro quiet_bind quiet_emit quiet_return quiet_scan_loop
      | simp split: sum.split | intro conjI impI allI)+

lemma quiet_waitForContainer [simp]: "quiet (waitForContainer client cid)"
  unfolding waitForContainer_def
  by (intro quiet_bind quiet_emit quiet_return | simp)+

lemma quiet_runStep [simp]: "quiet (runStep w client job step p)"
  unfolding runStep_def
  by (intro quiet_bind quiet_emit quiet_return quiet_ensureImage quiet_createAndStartContainer
        quiet_streamLogs quiet_waitForContainer quiet_PushLog
      | simp split: sum.split option.split | intro conjI impI allI)+

lemma quietD: "quiet m \<Longrightarrow> hoare m (\<lambda>a v. no_status v)"
  by (simp only: quiet_def)

lemma hoare_report:
  "hoare (bind (PushLog w job l) (\<lambda>_. bind (updateJobStatus w job c) (\<lambda>_. return b)))
     (\<lambda>b' v. b' = b \<and> v = [DbInsertLog (Id job) l, Println l, DbUpdateStatus (Id job) (sint c)])"
proof -
  have 1: "hoare (PushLog w job l) (\<lambda>a v. v = [DbInsertLog (Id job) l, Println l])"
    unfolding PushLog_def inertLog_def
    by (rule hoare_bind[where P="\<lambda>a v. v = [DbInsertLog (Id job) l]"
          and R="\<lambda>a b v. v = [Println l]"])
      (simp_all add: hoare_db_Exec hoare_emit no_status_def)
  have 2: "hoare (updateJobStatus w job c) (\<lambda>a v. v = [DbUpdateStatus (Id job) (sint c)])"
    unfolding updateJobStatus_def db_updateJobStatus_def by (rule hoare_db_Exec) simp
  have 3: "hoare (bind (updateJobStatus w job c) (\<lambda>_. return b))
             (\<lambda>b' v. b' = b \<and> v = [DbUpdateStatus (Id job) (sint c)])"
    apply (rule hoareI)
    subgoal for t
      using 2[unfolded hoare_def, rule_format, of t]
      by (cases "updateJobStatus w job c t") (simp_all add: bind_def return_def)
    done
  show ?thesis
    by (rule hoare_bind[OF 1 3]) (simp_all add: no_status_def)
qed

lemma hoare_report_unit:
  "hoare (bind (PushLog w job l) (\<lambda>_. updateJobStatus w job c))
     (\<lambda>a v. v = [DbInsertLog (Id job) l, Println l, DbUpdateStatus (Id job) (sint c)])"
proof -
  have 1: "hoare (PushLog w job l) (\<lambda>a v. v = [DbInsertLog (Id job) l, Println l])"
    unfolding PushLog_def inertLog_def
    by (rule hoare_bind[where P="\<lambda>a v. v = [DbInsertLog (Id job) l]"
          and R="\<lambda>a b v. v = [Println l]"])
      (simp_all add: hoare_db_Exec hoare_emit no_status_def)
  have 2: "hoare (updateJobStatus w job c) (\<lambda>a v. v = [DbUpdateStatus (Id job) (sint c)])"
    unfolding updateJobStatus_def db_updateJobStatus_def by (rule hoare_db_Exec) simp
  show ?thesis
    by (rule hoare_bind[OF 1 2]) (simp_all add: no_status_def)
qed

lemma ends_failed_prefix: "no_status v \<Longrightarrow> ends_failed job v' \<Longrightarrow> ends_failed job (v @ v')"
  unfolding ends_failed_def
  by (elim exE conjE) (rule_tac x="v @ v'a" in exI, simp)

lemma ends_succeeded_prefix:
  "no_status v \<Longrightarrow> ends_succeeded job v' \<Longrightarrow> ends_succeeded job (v @ v')"
  unfolding ends_succeeded_def
  by (elim exE conjE) (rule_tac x="v @ v'a" in exI, simp)

lemma loop_post_prefix: "no_status v \<Longrightarrow> loop_post job b v' \<Longrightarrow> loop_post job b (v @ v')"
  by (simp add: loop_post_def ends_failed_prefix split: if_splits)

lemma hoare_quiet_then:
  assumes m: "quiet m" and f: "\<And>a. hoare (f a) Q"
    and c: "\<And>b v v'. no_status v \<Longrightarrow> Q b v' \<Longrightarrow> Q b (v @ v')"
  shows "hoare (bind m f) Q"
  by (rule hoare_bind[OF quietD[OF m] f]) (simp_all add: c)

lemma hoare_step_loop: "hoare (step_loop w client job p i steps) (loop_post job)"
proof (induction steps arbitrary: i)
  case Nil
  show ?case by (simp add: hoare_return loop_post_def)
next
  case (Cons s rest)
  have fail: "\<And>e. hoare (bind (PushLog w job (StepFailed (i + 1) e))
                 (\<lambda>_. bind (updateJobStatus w job (- 1)) (\<lambda>_. return False))) (loop_post job)"
    apply (rule hoare_weaken[OF hoare_report])
    apply (simp add: loop_post_def ends_failed_def)
    done
  have pass: "hoare (bind (PushLog w job (StepCompleted (i + 1)))
                 (\<lambda>_. step_loop w client job p (i + 1) rest)) (loop_post job)"
    apply (rule hoare_quiet_then[where Q="loop_post job"])
      apply (rule quiet_PushLog)
     apply (rule Cons.IH)
    apply (erule (1) loop_post_prefix)
    done
  have body: "\<And>err. hoare (case err of
       Some e \<Rightarrow> bind (PushLog w job (StepFailed (i + 1) e))
                 (\<lambda>_. bind (updateJobStatus w job (- 1)) (\<lambda>_. return False))
     | None \<Rightarrow> bind (PushLog w job (StepCompleted (i + 1)))
                 (\<lambda>_. step_loop w client job p (i + 1) rest)) (loop_post job)"
    subgoal for err using fail pass by (cases err) simp_all
    done
  have "hoare (bind (runStep w (client i) job s p) (\<lambda>err. case err of
       Some e \<Rightarrow> bind (PushLog w job (StepFailed (i + 1) e))
                 (\<lambda>_. bind (updateJobStatus w job (- 1)) (\<lambda>_. return False))
     | None \<Rightarrow> bind (PushLog w job (StepCompleted (i + 1)))
                 (\<lambda>_. step_loop w client job p (i + 1) rest))) (loop_post job)"
    apply (rule hoare_quiet_then[where Q="loop_post job"])
      apply (rule quiet_runStep)
     apply (rule body)
    apply (erule (1) loop_post_prefix)
    done
  then show ?case
    unfolding step_loop.simps
    apply -
    apply (rule hoare_quiet_then[where Q="loop_post job"])
      apply (rule quiet_PushLog)
     apply assumption
    apply (erule (1) loop_post_prefix)
    done
qed

lemma run_post_prefix: "no_status v \<Longrightarrow> run_post job v' \<Longrightarrow> run_post job (v @ v')"
  unfolding run_post_def using ends_failed_prefix ends_succeeded_prefix by blast

lemma hoare_failed_report:
  "is_failure_line l \<Longrightarrow>
   hoare (bind (PushLog w job l) (\<lambda>_. updateJobStatus w job (- 1))) (\<lambda>a. run_post job)"
  apply (rule hoare_weaken[OF hoare_report_unit])
  apply (simp add: run_post_def ends_failed_def)
  done

lemma hoare_Run: "hoare (Run w job) (\<lambda>a. run_post job)"
proof -
  have fin: "hoare (bind (PushLog w job JobCompleted) (\<lambda>_. updateJobStatus w job 0))
                (\<lambda>a. run_post job)"
    apply (rule hoare_weaken[OF hoare_report_unit])
    apply (simp add: run_post_def ends_succeeded_def)
    done
  have tail: "\<And>client p steps. hoare (bind (step_loop w client job p 0 steps)
       (\<lambda>finished. if finished
          then bind (PushLog w job JobCompleted) (\<lambda>_. updateJobStatus w job 0)
          else return ())) (\<lambda>a. run_post job)"
  proof (rule hoareI)
    fix client p steps t
    let ?k = "\<lambda>finished. if finished
          then bind (PushLog w job JobCompleted) (\<lambda>_. updateJobStatus w job 0)
          else return ()"
    show "case bind (step_loop w client job p 0 steps) ?k t of
            Ret a u \<Rightarrow> (\<exists>v. u = t @ v \<and> run_post job v)
          | Exit u \<Rightarrow> (\<exists>v. u = t @ v \<and> no_status v)"
    proof (cases "step_loop w client job p 0 steps t")
      case (Exit u)
      from hoare_Exit[OF hoare_step_loop Exit] show ?thesis by (simp add: bind_def Exit)
    next
      case (Ret b u)
      from hoare_Ret[OF hoare_step_loop Ret] obtain v where u: "u = t @ v"
        and lp: "loop_post job b v" by blast
      show ?thesis
      proof (cases b)
        case False
        with lp have "run_post job v" by (simp add: loop_post_def run_post_def)
        with u False show ?thesis by (simp add: bind_def Ret return_def)
      next
        case True
        with lp have nv: "no_status v" by (simp add: loop_post_def)
        let ?m = "bind (PushLog w job JobCompleted) (\<lambda>_. updateJobStatus w job 0)"
        have b: "bind (step_loop w client job p 0 steps) ?k t = ?m u"
          by (simp add: bind_def[of "step_loop w client job p 0 steps"] Ret True)
        show ?thesis
        proof (cases "?m u")
          case (Exit u')
          from hoare_Exit[OF fin Exit] obtain v' where "u' = u @ v'" "no_status v'" by blast
          with u nv have "u' = t @ (v @ v')" "no_status (v @ v')" by simp_all
          then show ?thesis unfolding b Exit by (auto simp del: append_assoc no_status_simps)
        next
          case r: (Ret a u')
          from hoare_Ret[OF fin r] obtain v' where "u' = u @ v'" "run_post job v'" by blast
          with u nv have "u' = t @ (v @ v')" "run_post job (v @ v')"
            by (simp_all add: run_post_prefix)
          then show ?thesis unfolding b r by (auto simp del: append_assoc)
        qed
      qed
    qed
  qed
  have k: "\<And>r. hoare (case r of
       Inl e \<Rightarrow> bind (PushLog w job (CloneFailed e)) (\<lambda>_. updateJobStatus w job (- 1))
     | Inr repoPath \<Rightarrow>
        (case loadConfig w repoPath of
           Inl e \<Rightarrow> bind (PushLog w job (ConfigFailed e)) (\<lambda>_. updateJobStatus w job (- 1))
         | Inr config \<Rightarrow>
            (case NewClientWithOpts w of
               Inl e \<Rightarrow> bind (PushLog w job (ClientFailed e)) (\<lambda>_. updateJobStatus w job (- 1))
             | Inr client \<Rightarrow>
                 bind (step_loop w client job repoPath 0 (Steps config))
                   (\<lambda>finished. if finished
                      then bind (PushLog w job JobCompleted) (\<lambda>_. updateJobStatus w job 0)
                      else return ())))) (\<lambda>a. run_post job)"
    by (simp add: hoare_failed_report tail split: sum.split)
  show ?thesis
    unfolding Run_def
    apply (rule hoare_quiet_then[where Q="\<lambda>a. run_post job"])
      apply (rule quiet_PushLog)
     apply (rule hoare_quiet_then[where Q="\<lambda>a. run_post job"])
       apply (rule quiet_cloneRepository)
      apply (rule k)
     apply (erule (1) run_post_prefix)
    apply (erule (1) run_post_prefix)
    done
qed

lemma status_writes_filter:
  "status_writes j v = map snd (filter (\<lambda>p. fst p = j) (all_status_writes v))"
  by (induction v) (auto split: event.splits)

lemma no_status_writes: "no_status v \<Longrightarrow> status_writes j v = []"
  by (simp add: status_writes_filter no_status_def)

lemma createJob_run:
  "db_insert_job w projectId branch = Inr jid \<Longrightarrow>
   createJob w projectId branch t
     = Ret (getJobById w jid) (t @ [DbInsertJob jid projectId branch (- 1)])"
  by (simp add: createJob_def bind_def emit_def return_def)

lemma getJobById_Id: "getJobById w jid = Inr job \<Longrightarrow> Id job = jid"
  by (auto simp: getJobById_def split: sum.splits prod.splits)

lemma job_status_sequence_aux:
  assumes ins: "db_insert_job w projectId branch = Inr jid"
  shows "\<exists>T. trace_of (TaskView_POST w projectId branch []) = T
     \<and> all_status_writes T = map (Pair jid) (status_writes jid T)
     \<and> (status_writes jid T = [- 1]
        \<or> (status_writes jid T = [- 1, 0]
            \<and> (\<exists>U. T = U @ [DbInsertLog jid JobCompleted, Println JobCompleted,
                              DbUpdateStatus jid 0]))
        \<or> (status_writes jid T = [- 1, - 1]
            \<and> (\<exists>U l. T = U @ [DbInsertLog jid l, Println l, DbUpdateStatus jid (- 1)]
                   \<and> is_failure_line l)))"
proof -
  let ?T0 = "[DbInsertJob jid projectId branch (- 1)]"
  have cj: "createJob w projectId branch [] = Ret (getJobById w jid) ?T0"
    using createJob_run[OF ins, of "[]"] by simp
  show ?thesis
  proof (cases "getJobById w jid")
    case (Inl e)
    have "TaskView_POST w projectId branch [] = Ret () ?T0"
      by (simp add: TaskView_POST_def bind_def cj Inl return_def)
    then show ?thesis by (simp add: trace_of_def)
  next
    case (Inr job)
    from getJobById_Id[OF Inr] have id: "Id job = jid" .
    have tv: "TaskView_POST w projectId branch [] = Run w job ?T0"
      by (simp add: TaskView_POST_def bind_def cj Inr)
    show ?thesis
    proof (cases "Run w job ?T0")
      case (Exit u)
      from hoare_Exit[OF hoare_Run Exit] obtain v where u: "u = ?T0 @ v" and n: "no_status v"
        by blast
      from n have "all_status_writes v = []" by (simp add: no_status_def)
      with u n show ?thesis
        by (simp add: tv Exit trace_of_def no_status_writes)
    next
      case (Ret a u)
      from hoare_Ret[OF hoare_Run Ret] obtain v where u: "u = ?T0 @ v" and rp: "run_post job v"
        by blast
      from rp show ?thesis unfolding run_post_def
      proof
        assume "ends_failed job v"
        then obtain v' l where v: "v = v' @ [DbInsertLog jid l, Println l, DbUpdateStatus jid (- 1)]"
          and n: "no_status v'" and fl: "is_failure_line l"
          unfolding ends_failed_def id by blast
        from n have a: "all_status_writes v' = []" by (simp add: no_status_def)
        have T: "u = (?T0 @ v') @ [DbInsertLog jid l, Println l, DbUpdateStatus jid (- 1)]"
          using u v by simp
        have 1: "all_status_writes u = map (Pair jid) (status_writes jid u)"
          unfolding T using a n by (simp add: no_status_writes)
        have 2: "status_writes jid u = [- 1, - 1]"
          unfolding T using n by (simp add: no_status_writes)
        show ?thesis
          unfolding tv Ret trace_of_def using 1 2 T fl by auto
      next
        assume "ends_succeeded job v"
        then obtain v' where v: "v = v' @ [DbInsertLog jid JobCompleted, Println JobCompleted,
            DbUpdateStatus jid 0]"
          and n: "no_status v'"
          unfolding ends_succeeded_def id by blast
        from n have a: "all_status_writes v' = []" by (simp add: no_status_def)
        have T: "u = (?T0 @ v') @ [DbInsertLog jid JobCompleted, Println JobCompleted,
            DbUpdateStatus jid 0]"
          using u v by simp
        have 1: "all_status_writes u = map (Pair jid) (status_writes jid u)"
          unfolding T using a n by (simp add: no_status_writes)
        have 2: "status_writes jid u = [- 1, 0]"
          unfolding T using n by (simp add: no_status_writes)
        show ?thesis
          unfolding tv Ret trace_of_def using 1 2 T by auto
      qed
    qed
  qed
qed

section \<open>Sample runs\<close>

lemma demo_clone:
  "cloneRepository (demo_env doc client) demo_job [] =
     Ret (Inr ''/tmp/duck-ci/demo-task-7'')
       [GitClone ''main'' ''https://example.org/demo.git'' ''/tmp/duck-ci/demo-task-7'',
        DbInsertLog 7 (CloneOutput ''Cloning into demo''),
        Println (CloneOutput ''Cloning into demo'')]"
  by (simp add: cloneRepository_def Let_def bind_def emit_def return_def PushLog_def
      inertLog_def db_Exec_def demo_env_def demo_job_def demo_project_def repoPath_of_def
      format_uint32_def)

lemma store_ok_demo [simp]: "store_ok (demo_env doc client)"
  by (simp add: store_ok_def demo_env_def)

lemma demo_clone_returns:
  "returns (cloneRepository (demo_env doc client) demo_job) (Inr ''/tmp/duck-ci/demo-task-7'')"
  by (simp add: returns_def demo_clone)

lemma demo_load_pipeline:
  "loadConfig (demo_env pipeline_manifest client) p
     = Inr \<lparr>Steps = [build_step, test_step, deploy_step]\<rparr>"
  by (simp add: loadConfig_def yaml_Unmarshal_def demo_env_def pipeline_manifest_def
      zero_Config_def zero_Step_def build_step_def test_step_def deploy_step_def)

lemma runStep_answers_exit:
  assumes ok: "store_ok w" and img: "Image step = ''alpine''"
  shows "returns (runStep w (answers_exit code) job step p)
           (if code \<noteq> 0 then Some (StatusCodeError code) else None)"
proof -
  have 1: "returns (ensureImage (answers_exit code) (Image step)) None"
    by (simp add: returns_def ensureImage_run answers_exit_def img)
  have 2: "returns (createAndStartContainer (answers_exit code) step p) (Inr ''c1'')"
    by (simp add: returns_def createAndStartContainer_run answers_exit_def)
  have 3: "returns (streamLogs w (answers_exit code) job ''c1'') None"
    by (simp add: returns_def streamLogs_ok[OF ok] answers_exit_def)
  have 4: "ContainerWait (answers_exit code) ''c1'' = Inr code"
    by (simp add: answers_exit_def)
  from runStep_after_wait[OF ok 1 2 3 4] show ?thesis by simp
qed

lemma answers_exit_stages:
  "returns (ensureImage (answers_exit code) ''alpine'') None"
  "returns (createAndStartContainer (answers_exit code) step p) (Inr ''c1'')"
  "store_ok w \<Longrightarrow> returns (streamLogs w (answers_exit code) job ''c1'') None"
  "ContainerWait (answers_exit code) ''c1'' = Inr code"
  by (simp_all add: returns_def ensureImage_run createAndStartContainer_run streamLogs_ok
      answers_exit_def)

lemma demo_load_empty:
  "loadConfig (demo_env (YMap []) client) p = Inr \<lparr>Steps = []\<rparr>"
  "loadConfig (demo_env (YMap [(''steps'', YSeq [])]) client) p = Inr \<lparr>Steps = []\<rparr>"
  "loadConfig (demo_env (YMap [(''steps'', YNull)]) client) p = Inr \<lparr>Steps = []\<rparr>"
  "loadConfig (demo_env YNull client) p = Inr \<lparr>Steps = []\<rparr>"
  by (simp_all add: loadConfig_def yaml_Unmarshal_def demo_env_def zero_Config_def)

lemma runStep_stream_fails:
  "runStep (demo_env doc client) answers_stream_fails demo_job build_step ''/src'' [] =
     Ret (Some (StreamLogsError (Err ''connection reset'')))
       [EvImageList,
        EvContainerCreate (containerConfig_of build_step) (hostConfig_of ''/src''),
        EvContainerStart ''c1'', EvContainerLogs ''c1'']"
  by (simp add: runStep_def bind_def return_def ensureImage_run createAndStartContainer_run
      streamLogs_ok answers_stream_fails_def answers_exit_def build_step_def)

lemma runStep_wait_fails:
  "runStep (demo_env doc client) answers_wait_fails demo_job build_step ''/src'' [] =
     Ret (Some (WaitError (Err ''context canceled'')))
       [EvImageList,
        EvContainerCreate (containerConfig_of build_step) (hostConfig_of ''/src''),
        EvContainerStart ''c1'', EvContainerLogs ''c1'',
        DbInsertLog 7 (ContainerOutput ''hi''), Println (ContainerOutput ''hi''), EvLogsClose,
        EvContainerWait ''c1'']"
  by (simp add: runStep_def bind_def return_def ensureImage_run createAndStartContainer_run
      streamLogs_ok waitForContainer_run answers_wait_fails_def answers_exit_def build_step_def
      output_events_def demo_job_def)

lemma demo_failed_history:
  "status_writes 7 (trace_of (TaskView_POST (demo_env pipeline_manifest second_exits_3)
      ''1'' ''main'' [])) = [- 1, - 1]"
proof -
  let ?w = "demo_env pipeline_manifest second_exits_3"
  let ?p = "''/tmp/duck-ci/demo-task-7''"
  let ?c = "\<lparr>Steps = [build_step, test_step, deploy_step]\<rparr>"
  let ?T0 = "[DbInsertJob 7 ''1'' ''main'' (- 1)]"
  have i: "db_insert_job ?w ''1'' ''main'' = Inr 7" by (simp add: demo_env_def)
  have g: "getJobById ?w 7 = Inr demo_job"
    by (simp add: getJobById_def demo_env_def demo_job_def)
  have tv: "TaskView_POST ?w ''1'' ''main'' [] = Run ?w demo_job ?T0"
    using createJob_run[OF i, of "[]"] by (simp add: TaskView_POST_def bind_def g)
  have cli: "NewClientWithOpts ?w = Inr second_exits_3" by (simp add: demo_env_def)
  have pass: "\<forall>i<2 - 1. returns (runStep ?w (second_exits_3 i) demo_job (Steps ?c ! i) ?p) None"
    using runStep_answers_exit[of ?w build_step 0 demo_job ?p]
    by (simp add: second_exits_3_def build_step_def)
  have fail: "returns (runStep ?w (second_exits_3 (2 - 1)) demo_job (Steps ?c ! (2 - 1)) ?p)
                (Some (StatusCodeError 3))"
    using runStep_answers_exit[of ?w test_step 3 demo_job ?p]
    by (simp add: second_exits_3_def test_step_def)
  have k1: "(1::nat) \<le> 2" by simp
  have kN: "2 \<le> length (Steps ?c)" by simp
  from Run_fail_fast_aux[OF store_ok_demo demo_clone_returns demo_load_pipeline cli k1 kN pass fail,
      of ?T0]
  obtain T U where run: "Run ?w demo_job ?T0 = Ret () (?T0 @ T)"
    and T: "T = U @ [DbInsertLog (Id demo_job) (StepFailed 2 (StatusCodeError 3)),
                  Println (StepFailed 2 (StatusCodeError 3)), DbUpdateStatus (Id demo_job) (- 1)]"
    and U: "all_status_writes U = []"
    by blast
  from U have "status_writes 7 U = []" by (simp add: status_writes_filter)
  then show ?thesis
    unfolding tv run T by (simp add: trace_of_def demo_job_def)
qed

section \<open>The properties of the specification\<close>

subsection \<open>The container runtime gateway\<close>

text \<open>
  C8. \<^verbatim>\<open>ensureImage\<close> lists the local images first. A listing error is returned. If
  some image carries the requested name among its repo tags, it returns success and
  nothing is pulled. Otherwise it starts a pull: a pull error is returned; else every
  chunk of the progress stream is read, the stream is closed, and the error that ended
  the stream (none at a clean end) is returned.
\<close>

theorem ensureImage_semantics:
  "ensureImage client imageName t =
     (case ImageList client of
        Inl e \<Rightarrow> Ret (Some e) (t @ [EvImageList])
      | Inr images \<Rightarrow>
          if (\<exists>img \<in> set images. imageName \<in> set (RepoTags img))
          then Ret None (t @ [EvImageList])
          else (case ImagePull client imageName of
                  Inl e \<Rightarrow> Ret (Some e) (t @ [EvImageList, EvImagePull imageName])
                | Inr out \<Rightarrow>
                    Ret (read_err out)
                      (t @ [EvImageList, EvImagePull imageName] @ map EvPullRead (chunks out)
                         @ [EvPullClose])))"
  by (rule ensureImage_run)

theorem ensureImage_semantics_witness:
  "ensureImage (answers_exit 0) ''alpine'' [] = Ret None [EvImageList]
   \<and> ensureImage (answers_exit 0) ''busybox'' [] =
       Ret (Some (Err ''pull access denied'')) [EvImageList, EvImagePull ''busybox'']"
  using ensureImage_semantics[of "answers_exit 0" "''alpine''" "[]"]
    ensureImage_semantics[of "answers_exit 0" "''busybox''" "[]"]
  by (simp add: answers_exit_def)

subsection \<open>The working directory\<close>

text \<open>
  C9. The directory of a job is \<^verbatim>\<open>/tmp/duck-ci/<project name>-task-<job id>\<close>, built from
  the project name and the job id only, and two jobs with different ids have different
  directories, whatever their projects are called. \<^verbatim>\<open>cloneRepository\<close> always hands this
  directory to git as the destination of the clone; it returns it when git succeeds
  (the process exits instead when the store refuses the log line), and returns git's
  error when git fails.
\<close>

theorem cloneRepository_dirs_distinct:
  assumes "Id j1 \<noteq> Id j2"
  shows "\<exists>p1 p2.
       p1 = ''/tmp/duck-ci/'' @ Name (Project j1) @ ''-task-'' @ format_uint32 (Id j1)
     \<and> p2 = ''/tmp/duck-ci/'' @ Name (Project j2) @ ''-task-'' @ format_uint32 (Id j2)
     \<and> p1 \<noteq> p2
     \<and> cloneRepository w1 j1 t1 =
         (case CombinedOutput w1 [''git'', ''clone'', ''-b'', Branch j1, Repo (Project j1), p1] of
            (out, Some e) \<Rightarrow>
              Ret (Inl (GitCloneError e out)) (t1 @ [GitClone (Branch j1) (Repo (Project j1)) p1])
          | (out, None) \<Rightarrow>
              (case db_exec_err w1 (Suc (length t1)) of
                 Some e \<Rightarrow> Exit (t1 @ [GitClone (Branch j1) (Repo (Project j1)) p1, Fatal e])
               | None \<Rightarrow>
                   Ret (Inr p1)
                     (t1 @ [GitClone (Branch j1) (Repo (Project j1)) p1,
                            DbInsertLog (Id j1) (CloneOutput out), Println (CloneOutput out)])))
     \<and> cloneRepository w2 j2 t2 =
         (case CombinedOutput w2 [''git'', ''clone'', ''-b'', Branch j2, Repo (Project j2), p2] of
            (out, Some e) \<Rightarrow>
              Ret (Inl (GitCloneError e out)) (t2 @ [GitClone (Branch j2) (Repo (Project j2)) p2])
          | (out, None) \<Rightarrow>
              (case db_exec_err w2 (Suc (length t2)) of
                 Some e \<Rightarrow> Exit (t2 @ [GitClone (Branch j2) (Repo (Project j2)) p2, Fatal e])
               | None \<Rightarrow>
                   Ret (Inr p2)
                     (t2 @ [GitClone (Branch j2) (Repo (Project j2)) p2,
                            DbInsertLog (Id j2) (CloneOutput out), Println (CloneOutput out)])))"
proof -
  from assms have ne: "repoPath_of j1 \<noteq> repoPath_of j2" by (rule repoPath_distinct)
  show ?thesis
    apply (rule exI[where x="repoPath_of j1"])
    apply (rule exI[where x="repoPath_of j2"])
    apply (intro conjI)
        apply (simp add: repoPath_of_def)
       apply (simp add: repoPath_of_def)
      apply (rule ne)
     apply (rule cloneRepository_cases)
    apply (rule cloneRepository_cases)
    done
qed

theorem cloneRepository_dirs_distinct_witness:
  "Id demo_job \<noteq> Id next_job
   \<and> cloneRepository (demo_env demo_manifest all_exit_0) demo_job []
       = Ret (Inr ''/tmp/duck-ci/demo-task-7'')
           [GitClone ''main'' ''https://example.org/demo.git'' ''/tmp/duck-ci/demo-task-7'',
            DbInsertLog 7 (CloneOutput ''Cloning into demo''),
            Println (CloneOutput ''Cloning into demo'')]
   \<and> cloneRepository (demo_env demo_manifest all_exit_0) next_job []
       = Ret (Inr ''/tmp/duck-ci/demo-task-8'')
           [GitClone ''main'' ''https://example.org/demo.git'' ''/tmp/duck-ci/demo-task-8'',
            DbInsertLog 8 (CloneOutput ''Cloning into demo''),
            Println (CloneOutput ''Cloning into demo'')]
   \<and> ''/tmp/duck-ci/demo-task-7'' \<noteq> ''/tmp/duck-ci/demo-task-8''"
proof -
  have ne: "Id demo_job \<noteq> Id next_job" by (simp add: demo_job_def next_job_def)
  from cloneRepository_dirs_distinct[OF ne,
      of "demo_env demo_manifest all_exit_0" "[]" "demo_env demo_manifest all_exit_0" "[]"]
  show ?thesis
    by (simp add: demo_job_def next_job_def demo_project_def demo_env_def format_uint32_def)
qed

subsection \<open>The step executor\<close>

text \<open>
  C7. When the image is there, the container was created and started, its output was
  streamed without error and the wait delivered an exit code, \<^verbatim>\<open>runStep\<close> returns the
  error \<^verbatim>\<open>step failed with status code: <code>\<close> for a code other than zero and no
  error for zero, whatever the removal of the container answers.
\<close>

theorem runStep_exit_code:
  assumes ok: "store_ok w"
    and img: "returns (ensureImage client (Image step)) None"
    and start: "returns (createAndStartContainer client step repoPath) (Inr cid)"
    and stream: "returns (streamLogs w client job cid) None"
    and wait: "ContainerWait client cid = Inr code"
  shows "returns (runStep w client job step repoPath)
           (if code \<noteq> 0 then Some (StatusCodeError code) else None)
       \<and> error_text (StatusCodeError code)
           = ''step failed with status code: '' @ format_int64 code"
  using runStep_after_wait[OF assms] by simp

theorem runStep_exit_code_witness:
  "store_ok (demo_env pipeline_manifest second_exits_3)
   \<and> returns (ensureImage (answers_exit 3) (Image test_step)) None
   \<and> returns (createAndStartContainer (answers_exit 3) test_step ''/src'') (Inr ''c1'')
   \<and> returns (streamLogs (demo_env pipeline_manifest second_exits_3) (answers_exit 3)
         demo_job ''c1'') None
   \<and> ContainerWait (answers_exit 3) ''c1'' = Inr 3
   \<and> returns (runStep (demo_env pipeline_manifest second_exits_3) (answers_exit 3) demo_job
         test_step ''/src'') (Some (StatusCodeError 3))
   \<and> error_text (StatusCodeError 3) = ''step failed with status code: 3''
   \<and> returns (runStep (demo_env pipeline_manifest second_exits_3) (answers_exit 0) demo_job
         test_step ''/src'') None"
proof -
  let ?w = "demo_env pipeline_manifest second_exits_3"
  have i: "Image test_step = ''alpine''" by (simp add: test_step_def)
  note st3 = answers_exit_stages(1)[of 3, folded i] answers_exit_stages(2)[of 3 test_step "''/src''"]
    answers_exit_stages(3)[OF store_ok_demo, of pipeline_manifest second_exits_3 3 demo_job]
    answers_exit_stages(4)[of 3]
  note st0 = answers_exit_stages(1)[of 0, folded i] answers_exit_stages(2)[of 0 test_step "''/src''"]
    answers_exit_stages(3)[OF store_ok_demo, of pipeline_manifest second_exits_3 0 demo_job]
    answers_exit_stages(4)[of 0]
  from runStep_exit_code[OF store_ok_demo st3]
  have a: "returns (runStep ?w (answers_exit 3) demo_job test_step ''/src'') (Some (StatusCodeError 3))"
    and b: "error_text (StatusCodeError 3) = ''step failed with status code: 3''"
    by (simp_all add: format_int64_def)
  from runStep_exit_code[OF store_ok_demo st0]
  have c: "returns (runStep ?w (answers_exit 0) demo_job test_step ''/src'') None"
    by simp
  show ?thesis
    by (intro conjI store_ok_demo st3 a b c)
qed

subsection \<open>The job runner\<close>

text \<open>
  C1. Let the store accept every write, the clone, the manifest and the Docker client
  be fine, and let step \<open>k\<close> of \<open>N\<close> (counted from 1) be the first step whose executor
  returns an error. Then \<^verbatim>\<open>Run\<close> returns; the lines "Starting step" it stored are those
  of steps 1 to \<open>k\<close>, in order; the step executor was called \<open>k\<close> times; the containers
  created are those of the first \<open>k - 1\<close> steps and at most that of step \<open>k\<close>, none of a
  later step; and the run ends with the line "Step k failed" carrying the executor's
  error, followed by the one status write, \<open>-1\<close>.
\<close>

theorem Run_fail_fast:
  assumes ok: "store_ok w"
    and clone: "returns (cloneRepository w job) (Inr repoPath)"
    and load: "loadConfig w repoPath = Inr config"
    and cli: "NewClientWithOpts w = Inr client"
    and k1: "1 \<le> k" and kN: "k \<le> length (Steps config)"
    and pass: "\<forall>i<k - 1. returns (runStep w (client i) job (Steps config ! i) repoPath) None"
    and fail: "returns (runStep w (client (k - 1)) job (Steps config ! (k - 1)) repoPath) (Some e)"
  shows "\<exists>T U. Run w job t = Ret () (t @ T)
     \<and> filter is_StartingStep (stored_lines T)
         = map (\<lambda>i. StartingStep (i + 1) (StepName (Steps config ! i))) [0..<k]
     \<and> executor_calls T = k
     \<and> (created T = map (step_cfg repoPath) (take (k - 1) (Steps config))
          \<or> created T = map (step_cfg repoPath) (take k (Steps config)))
     \<and> T = U @ [DbInsertLog (Id job) (StepFailed k e), Println (StepFailed k e),
                DbUpdateStatus (Id job) (- 1)]
     \<and> all_status_writes U = []"
  using assms by (rule Run_fail_fast_aux)

theorem Run_fail_fast_witness:
  "store_ok (demo_env pipeline_manifest second_exits_3)
   \<and> loadConfig (demo_env pipeline_manifest second_exits_3) ''/tmp/duck-ci/demo-task-7''
       = Inr \<lparr>Steps = [build_step, test_step, deploy_step]\<rparr>
   \<and> returns (runStep (demo_env pipeline_manifest second_exits_3) (second_exits_3 0) demo_job
        build_step ''/tmp/duck-ci/demo-task-7'') None
   \<and> returns (runStep (demo_env pipeline_manifest second_exits_3) (second_exits_3 1) demo_job
        test_step ''/tmp/duck-ci/demo-task-7'') (Some (StatusCodeError 3))
   \<and> (\<exists>T U. Run (demo_env pipeline_manifest second_exits_3) demo_job [] = Ret () ([] @ T)
       \<and> filter is_StartingStep (stored_lines T)
           = map (\<lambda>i. StartingStep (i + 1)
                   (StepName (Steps \<lparr>Steps = [build_step, test_step, deploy_step]\<rparr> ! i))) [0..<2]
       \<and> executor_calls T = 2
       \<and> (created T = map (step_cfg ''/tmp/duck-ci/demo-task-7'')
                         (take (2 - 1) (Steps \<lparr>Steps = [build_step, test_step, deploy_step]\<rparr>))
            \<or> created T = map (step_cfg ''/tmp/duck-ci/demo-task-7'')
                         (take 2 (Steps \<lparr>Steps = [build_step, test_step, deploy_step]\<rparr>)))
       \<and> T = U @ [DbInsertLog (Id demo_job) (StepFailed 2 (StatusCodeError 3)),
                  Println (StepFailed 2 (StatusCodeError 3)), DbUpdateStatus (Id demo_job) (- 1)]
       \<and> all_status_writes U = [])"
proof -
  let ?w = "demo_env pipeline_manifest second_exits_3"
  let ?p = "''/tmp/duck-ci/demo-task-7''"
  let ?c = "\<lparr>Steps = [build_step, test_step, deploy_step]\<rparr>"
  have cli: "NewClientWithOpts ?w = Inr second_exits_3" by (simp add: demo_env_def)
  have p0: "returns (runStep ?w (second_exits_3 0) demo_job build_step ?p) None"
    using runStep_answers_exit[of ?w build_step 0 demo_job ?p]
    by (simp add: second_exits_3_def build_step_def)
  have p1: "returns (runStep ?w (second_exits_3 1) demo_job test_step ?p) (Some (StatusCodeError 3))"
    using runStep_answers_exit[of ?w test_step 3 demo_job ?p]
    by (simp add: second_exits_3_def test_step_def)
  have k1: "(1::nat) \<le> 2" by simp
  have kN: "2 \<le> length (Steps ?c)" by simp
  have pass: "\<forall>i<2 - 1. returns (runStep ?w (second_exits_3 i) demo_job (Steps ?c ! i) ?p) None"
    using p0 by simp
  have fail: "returns (runStep ?w (second_exits_3 (2 - 1)) demo_job (Steps ?c ! (2 - 1)) ?p)
                (Some (StatusCodeError 3))"
    using p1 by simp
  note inst = Run_fail_fast[OF store_ok_demo demo_clone_returns demo_load_pipeline cli k1 kN pass fail,
      of "[]"]
  show ?thesis
    by (intro conjI store_ok_demo demo_load_pipeline p0 p1 inst)
qed

text \<open>
  C3. When the store accepts every write, \<^verbatim>\<open>Run\<close> returns on every path, and its trace
  ends with a log line followed by the status write, which is the only status write of
  the run. Which line and which status is decided by the run: the clone failed, the
  manifest did not load, the Docker client could not be created, or step \<open>k + 1\<close> is the
  first step to fail, and then the line reports that failure and the status is \<open>-1\<close>;
  or every step succeeded, and then the line is "Job completed successfully" and the
  status is \<open>0\<close>.
\<close>

theorem Run_status_last:
  assumes ok: "store_ok w"
  shows "\<exists>U l c. Run w job t
        = Ret () (t @ U @ [DbInsertLog (Id job) l, Println l, DbUpdateStatus (Id job) c])
     \<and> all_status_writes U = []
     \<and> all_status_writes (U @ [DbInsertLog (Id job) l, Println l, DbUpdateStatus (Id job) c])
         = [(Id job, c)]
     \<and> ((\<exists>e. returns (cloneRepository w job) (Inl e) \<and> l = CloneFailed e \<and> c = - 1)
      \<or> (\<exists>p e. returns (cloneRepository w job) (Inr p) \<and> loadConfig w p = Inl e
              \<and> l = ConfigFailed e \<and> c = - 1)
      \<or> (\<exists>p cfg e. returns (cloneRepository w job) (Inr p) \<and> loadConfig w p = Inr cfg
              \<and> NewClientWithOpts w = Inl e \<and> l = ClientFailed e \<and> c = - 1)
      \<or> (\<exists>p cfg client k e. returns (cloneRepository w job) (Inr p)
              \<and> loadConfig w p = Inr cfg \<and> NewClientWithOpts w = Inr client
              \<and> k < length (Steps cfg)
              \<and> (\<forall>i<k. returns (runStep w (client i) job (Steps cfg ! i) p) None)
              \<and> returns (runStep w (client k) job (Steps cfg ! k) p) (Some e)
              \<and> l = StepFailed (k + 1) e \<and> c = - 1)
      \<or> (\<exists>p cfg client. returns (cloneRepository w job) (Inr p)
              \<and> loadConfig w p = Inr cfg \<and> NewClientWithOpts w = Inr client
              \<and> (\<forall>i<length (Steps cfg).
                    returns (runStep w (client i) job (Steps cfg ! i) p) None)
              \<and> l = JobCompleted \<and> c = 0))"
  using assms by (rule Run_status_last_aux)

theorem Run_status_last_witness:
  "store_ok (demo_env pipeline_manifest second_exits_3)
   \<and> (\<exists>U. Run (demo_env pipeline_manifest second_exits_3) demo_job []
         = Ret () (U @ [DbInsertLog 7 (StepFailed 2 (StatusCodeError 3)),
                        Println (StepFailed 2 (StatusCodeError 3)), DbUpdateStatus 7 (- 1)])
       \<and> all_status_writes U = []
       \<and> all_status_writes (U @ [DbInsertLog 7 (StepFailed 2 (StatusCodeError 3)),
                        Println (StepFailed 2 (StatusCodeError 3)), DbUpdateStatus 7 (- 1)])
           = [(7, - 1)])"
proof -
  let ?w = "demo_env pipeline_manifest second_exits_3"
  let ?p = "''/tmp/duck-ci/demo-task-7''"
  let ?c = "\<lparr>Steps = [build_step, test_step, deploy_step]\<rparr>"
  have cli: "NewClientWithOpts ?w = Inr second_exits_3" by (simp add: demo_env_def)
  have s0: "returns (runStep ?w (second_exits_3 0) demo_job build_step ?p) None"
    using runStep_answers_exit[of ?w build_step 0 demo_job ?p]
    by (simp add: second_exits_3_def build_step_def)
  have s1: "returns (runStep ?w (second_exits_3 1) demo_job test_step ?p)
                (Some (StatusCodeError 3))"
    using runStep_answers_exit[of ?w test_step 3 demo_job ?p]
    by (simp add: second_exits_3_def test_step_def)
  from Run_status_last[OF store_ok_demo, of pipeline_manifest second_exits_3 demo_job "[]"]
  obtain U l c where
    run: "Run ?w demo_job []
        = Ret () ([] @ U @ [DbInsertLog (Id demo_job) l, Println l, DbUpdateStatus (Id demo_job) c])"
    and sw: "all_status_writes U = []"
    and one: "all_status_writes (U @ [DbInsertLog (Id demo_job) l, Println l,
          DbUpdateStatus (Id demo_job) c]) = [(Id demo_job, c)]"
    and d: "(\<exists>e. returns (cloneRepository ?w demo_job) (Inl e) \<and> l = CloneFailed e \<and> c = - 1)
      \<or> (\<exists>p e. returns (cloneRepository ?w demo_job) (Inr p) \<and> loadConfig ?w p = Inl e
              \<and> l = ConfigFailed e \<and> c = - 1)
      \<or> (\<exists>p cfg e. returns (cloneRepository ?w demo_job) (Inr p) \<and> loadConfig ?w p = Inr cfg
              \<and> NewClientWithOpts ?w = Inl e \<and> l = ClientFailed e \<and> c = - 1)
      \<or> (\<exists>p cfg client k e. returns (cloneRepository ?w demo_job) (Inr p)
              \<and> loadConfig ?w p = Inr cfg \<and> NewClientWithOpts ?w = Inr client
              \<and> k < length (Steps cfg)
              \<and> (\<forall>i<k. returns (runStep ?w (client i) demo_job (Steps cfg ! i) p) None)
              \<and> returns (runStep ?w (client k) demo_job (Steps cfg ! k) p) (Some e)
              \<and> l = StepFailed (k + 1) e \<and> c = - 1)
      \<or> (\<exists>p cfg client. returns (cloneRepository ?w demo_job) (Inr p)
              \<and> loadConfig ?w p = Inr cfg \<and> NewClientWithOpts ?w = Inr client
              \<and> (\<forall>i<length (Steps cfg).
                    returns (runStep ?w (client i) demo_job (Steps cfg ! i) p) None)
              \<and> l = JobCompleted \<and> c = 0)"
    by blast
  have path: "\<And>q. returns (cloneRepository ?w demo_job) q \<Longrightarrow> q = Inr ?p"
    by (rule returns_unique[OF _ demo_clone_returns])
  have lc: "l = StepFailed 2 (StatusCodeError 3) \<and> c = - 1"
    using d
  proof (elim disjE exE conjE)
    fix e assume "returns (cloneRepository ?w demo_job) (Inl e)"
    from path[OF this] show ?thesis by simp
  next
    fix p e assume "returns (cloneRepository ?w demo_job) (Inr p)" "loadConfig ?w p = Inl e"
    then show ?thesis by (simp add: demo_load_pipeline)
  next
    fix p cfg e assume "NewClientWithOpts ?w = Inl e"
    then show ?thesis by (simp add: cli)
  next
    fix p cfg client k e
    assume c1: "returns (cloneRepository ?w demo_job) (Inr p)"
      and l1: "loadConfig ?w p = Inr cfg" and c2: "NewClientWithOpts ?w = Inr client"
      and k: "k < length (Steps cfg)"
      and pass: "\<forall>i<k. returns (runStep ?w (client i) demo_job (Steps cfg ! i) p) None"
      and fail: "returns (runStep ?w (client k) demo_job (Steps cfg ! k) p) (Some e)"
      and l: "l = StepFailed (k + 1) e" and c: "c = - 1"
    from path[OF c1] have p: "p = ?p" by simp
    from l1 have cfg: "cfg = ?c" by (simp add: demo_load_pipeline)
    from c2 cli have client: "client = second_exits_3" by simp
    have "k = 1"
    proof (rule ccontr)
      assume "k \<noteq> 1"
      then consider "k = 0" | "1 < k" by linarith
      then show False
      proof cases
        case 1
        with fail have "returns (runStep ?w (second_exits_3 0) demo_job build_step ?p) (Some e)"
          by (simp add: p cfg client)
        from returns_unique[OF this s0] show False by simp
      next
        case 2
        with pass have "returns (runStep ?w (client 1) demo_job (Steps cfg ! 1) p) None"
          by blast
        then have "returns (runStep ?w (second_exits_3 1) demo_job test_step ?p) None"
          by (simp add: p cfg client)
        from returns_unique[OF this s1] show False by simp
      qed
    qed
    with fail have "returns (runStep ?w (second_exits_3 1) demo_job test_step ?p) (Some e)"
      by (simp add: p cfg client)
    from returns_unique[OF this s1] have "e = StatusCodeError 3" by simp
    with l c \<open>k = 1\<close> show ?thesis by simp
  next
    fix p cfg client
    assume c1: "returns (cloneRepository ?w demo_job) (Inr p)"
      and l1: "loadConfig ?w p = Inr cfg" and c2: "NewClientWithOpts ?w = Inr client"
      and pass: "\<forall>i<length (Steps cfg).
                    returns (runStep ?w (client i) demo_job (Steps cfg ! i) p) None"
    from path[OF c1] have p: "p = ?p" by simp
    from l1 have cfg: "cfg = ?c" by (simp add: demo_load_pipeline)
    from c2 cli have client: "client = second_exits_3" by simp
    from cfg have "1 < length (Steps cfg)" by simp
    with pass have "returns (runStep ?w (client 1) demo_job (Steps cfg ! 1) p) None"
      by blast
    then have "returns (runStep ?w (second_exits_3 1) demo_job test_step ?p) None"
      by (simp add: p cfg client)
    from returns_unique[OF this s1] show ?thesis by simp
  qed
  from run sw one lc have "\<exists>U. Run ?w demo_job []
         = Ret () (U @ [DbInsertLog 7 (StepFailed 2 (StatusCodeError 3)),
                        Println (StepFailed 2 (StatusCodeError 3)), DbUpdateStatus 7 (- 1)])
       \<and> all_status_writes U = []
       \<and> all_status_writes (U @ [DbInsertLog 7 (StepFailed 2 (StatusCodeError 3)),
                        Println (StepFailed 2 (StatusCodeError 3)), DbUpdateStatus 7 (- 1)])
           = [(7, - 1)]"
    by (auto simp: demo_job_def)
  with store_ok_demo show ?thesis by (intro conjI)
qed

text \<open>
  C10. When the manifest loads and holds no step (and the store, the clone and the
  Docker client are fine), \<^verbatim>\<open>Run\<close> stores no "Starting step" line, calls no step
  executor, creates no container, and ends with the line "Job completed successfully"
  followed by the one status write, \<open>0\<close>.
\<close>

theorem Run_empty_pipeline:
  assumes ok: "store_ok w"
    and clone: "returns (cloneRepository w job) (Inr repoPath)"
    and load: "loadConfig w repoPath = Inr config"
    and empty: "Steps config = []"
    and cli: "NewClientWithOpts w = Inr client"
  shows "\<exists>T U. Run w job t = Ret () (t @ T)
     \<and> filter is_StartingStep (stored_lines T) = []
     \<and> executor_calls T = 0
     \<and> created T = []
     \<and> T = U @ [DbInsertLog (Id job) JobCompleted, Println JobCompleted,
                DbUpdateStatus (Id job) 0]
     \<and> all_status_writes U = []
     \<and> render JobCompleted = ''Job completed successfully''"
  using assms by (rule Run_empty_pipeline_aux)

theorem Run_empty_pipeline_witness:
  "store_ok (demo_env (YMap []) second_exits_3)
   \<and> loadConfig (demo_env (YMap []) second_exits_3) ''/tmp/duck-ci/demo-task-7''
        = Inr \<lparr>Steps = []\<rparr>
   \<and> loadConfig (demo_env (YMap [(''steps'', YSeq [])]) second_exits_3) ''/tmp/duck-ci/demo-task-7''
        = Inr \<lparr>Steps = []\<rparr>
   \<and> (\<exists>T U. Run (demo_env (YMap []) second_exits_3) demo_job [] = Ret () ([] @ T)
       \<and> filter is_StartingStep (stored_lines T) = []
       \<and> executor_calls T = 0
       \<and> created T = []
       \<and> T = U @ [DbInsertLog (Id demo_job) JobCompleted, Println JobCompleted,
                  DbUpdateStatus (Id demo_job) 0]
       \<and> all_status_writes U = []
       \<and> render JobCompleted = ''Job completed successfully'')"
proof -
  have cli: "NewClientWithOpts (demo_env (YMap []) second_exits_3) = Inr second_exits_3"
    by (simp add: demo_env_def)
  have e: "Steps \<lparr>Steps = []\<rparr> = []" by simp
  note inst = Run_empty_pipeline[OF store_ok_demo demo_clone_returns demo_load_empty(1) e cli, of "[]"]
  show ?thesis
    by (intro conjI store_ok_demo demo_load_empty inst)
qed

text \<open>
  C4. The claim is that the removal of the container is attempted however the step
  ends. \<^verbatim>\<open>runStep\<close> returns before \<^verbatim>\<open>ContainerRemove\<close> when streaming or waiting fails:
  with a daemon whose log stream cannot be opened, and with one whose wait fails, the
  container \<open>c1\<close> has been started and no removal is attempted.
\<close>

theorem runStep_leaves_container:
  "(\<exists>T. runStep (demo_env pipeline_manifest second_exits_3) answers_stream_fails demo_job
          build_step ''/src'' []
        = Ret (Some (StreamLogsError (Err ''connection reset''))) T
      \<and> started T = [''c1''] \<and> removed T = [])
   \<and> (\<exists>T. runStep (demo_env pipeline_manifest second_exits_3) answers_wait_fails demo_job
          build_step ''/src'' []
        = Ret (Some (WaitError (Err ''context canceled''))) T
      \<and> started T = [''c1''] \<and> removed T = [])"
  by (simp add: runStep_stream_fails runStep_wait_fails)

subsection \<open>Loading the manifest\<close>

text \<open>
  C6. A missing manifest file is a read error. The manifest with the one step
  \<open>build\<close>, \<open>alpine\<close>, \<open>echo hi\<close> loads as a configuration with exactly that step. A
  manifest whose \<open>steps\<close> value is a scalar or a mapping is an error of the decoder, not
  a configuration (a null value is the absent list, see C10). A top-level key other
  than \<open>steps\<close> changes nothing: the manifest loads as it does without the key.
\<close>

theorem loadConfig_manifest:
  "(ReadFile w (filepath_Join w repoPath ''duck-ci.yml'') = Inl e
      \<longrightarrow> loadConfig w repoPath = Inl (ReadConfigError e))
   \<and> (ReadFile w (filepath_Join w repoPath ''duck-ci.yml'') = Inr data
      \<and> yaml_parse w data
          = Inr (YMap [(''steps'', YSeq [YMap [(''name'', YScalar ''build''),
                                                 (''image'', YScalar ''alpine''),
                                                 (''runs'', YScalar ''echo hi'')]])])
      \<longrightarrow> loadConfig w repoPath
          = Inr \<lparr>Steps = [\<lparr>StepName = ''build'', Image = ''alpine'', Runs = ''echo hi''\<rparr>]\<rparr>)
   \<and> (ReadFile w (filepath_Join w repoPath ''duck-ci.yml'') = Inr data
      \<and> yaml_parse w data = Inr (YMap kvs) \<and> (''steps'', v) \<in> set kvs \<and> not_a_list v
      \<longrightarrow> (\<exists>errs. loadConfig w repoPath = Inl (ParseConfigError (TypeError errs))))
   \<and> (ReadFile w (filepath_Join w repoPath ''duck-ci.yml'') = Inr data
      \<and> yaml_parse w data = Inr (YMap (before @ (k, u) # after))
      \<and> ReadFile w' (filepath_Join w' repoPath' ''duck-ci.yml'') = Inr data'
      \<and> yaml_parse w' data' = Inr (YMap (before @ after))
      \<and> k \<noteq> ''steps''
      \<longrightarrow> loadConfig w repoPath = loadConfig w' repoPath')"
proof (intro conjI impI)
  assume "ReadFile w (filepath_Join w repoPath ''duck-ci.yml'') = Inl e"
  then show "loadConfig w repoPath = Inl (ReadConfigError e)"
    by (rule loadConfig_missing_file)
next
  assume "ReadFile w (filepath_Join w repoPath ''duck-ci.yml'') = Inr data
      \<and> yaml_parse w data
          = Inr (YMap [(''steps'', YSeq [YMap [(''name'', YScalar ''build''),
                                                 (''image'', YScalar ''alpine''),
                                                 (''runs'', YScalar ''echo hi'')]])])"
  then show "loadConfig w repoPath
          = Inr \<lparr>Steps = [\<lparr>StepName = ''build'', Image = ''alpine'', Runs = ''echo hi''\<rparr>]\<rparr>"
    by (simp add: loadConfig_def yaml_Unmarshal_def zero_Config_def zero_Step_def)
next
  assume "ReadFile w (filepath_Join w repoPath ''duck-ci.yml'') = Inr data
      \<and> yaml_parse w data = Inr (YMap kvs) \<and> (''steps'', v) \<in> set kvs \<and> not_a_list v"
  then show "\<exists>errs. loadConfig w repoPath = Inl (ParseConfigError (TypeError errs))"
    using loadConfig_not_a_list by blast
next
  assume "ReadFile w (filepath_Join w repoPath ''duck-ci.yml'') = Inr data
      \<and> yaml_parse w data = Inr (YMap (before @ (k, u) # after))
      \<and> ReadFile w' (filepath_Join w' repoPath' ''duck-ci.yml'') = Inr data'
      \<and> yaml_parse w' data' = Inr (YMap (before @ after))
      \<and> k \<noteq> ''steps''"
  then show "loadConfig w repoPath = loadConfig w' repoPath'"
    by (simp add: loadConfig_def yaml_Unmarshal_def decode_Config_fields_skip)
qed

theorem loadConfig_manifest_witness:
  "ReadFile no_file_env (filepath_Join no_file_env ''/src'' ''duck-ci.yml'')
      = Inl (Err ''open duck-ci.yml: no such file or directory'')
   \<and> loadConfig no_file_env ''/src''
      = Inl (ReadConfigError (Err ''open duck-ci.yml: no such file or directory''))
   \<and> yaml_parse (demo_env demo_manifest all_exit_0) ''steps: ...'' = Inr demo_manifest
   \<and> loadConfig (demo_env demo_manifest all_exit_0) ''/src''
      = Inr \<lparr>Steps = [\<lparr>StepName = ''build'', Image = ''alpine'', Runs = ''echo hi''\<rparr>]\<rparr>
   \<and> not_a_list (YScalar ''build'')
   \<and> (\<exists>errs. loadConfig (demo_env (YMap [(''steps'', YScalar ''build'')]) all_exit_0) ''/src''
              = Inl (ParseConfigError (TypeError errs)))
   \<and> ''version'' \<noteq> ''steps''
   \<and> loadConfig (demo_env (YMap ([] @ (''version'', YScalar ''2'') # [(''steps'', YSeq [])])) all_exit_0) ''/src''
      = loadConfig (demo_env (YMap ([] @ [(''steps'', YSeq [])])) all_exit_0) ''/src''"
proof -
  note a = loadConfig_manifest[where w=no_file_env and repoPath="''/src''"
      and e="Err ''open duck-ci.yml: no such file or directory''", THEN conjunct1]
  note b = loadConfig_manifest[where w="demo_env demo_manifest all_exit_0" and repoPath="''/src''"
      and data="''steps: ...''", THEN conjunct2, THEN conjunct1]
  note c = loadConfig_manifest[where w="demo_env (YMap [(''steps'', YScalar ''build'')]) all_exit_0"
      and repoPath="''/src''" and data="''steps: ...''" and kvs="[(''steps'', YScalar ''build'')]"
      and v="YScalar ''build''", THEN conjunct2, THEN conjunct2, THEN conjunct1]
  note d = loadConfig_manifest[where
      w="demo_env (YMap ([] @ (''version'', YScalar ''2'') # [(''steps'', YSeq [])])) all_exit_0"
      and w'="demo_env (YMap ([] @ [(''steps'', YSeq [])])) all_exit_0"
      and repoPath="''/src''" and repoPath'="''/src''" and data="''steps: ...''"
      and data'="''steps: ...''" and before="[]" and k="''version''" and u="YScalar ''2''"
      and after="[(''steps'', YSeq [])]", THEN conjunct2, THEN conjunct2, THEN conjunct2]
  have 1: "ReadFile no_file_env (filepath_Join no_file_env ''/src'' ''duck-ci.yml'')
      = Inl (Err ''open duck-ci.yml: no such file or directory'')"
    by (simp add: no_file_env_def demo_env_def)
  have 2: "yaml_parse (demo_env demo_manifest all_exit_0) ''steps: ...'' = Inr demo_manifest"
    by (simp add: demo_env_def)
  have 3: "not_a_list (YScalar ''build'')" by (simp add: not_a_list_def)
  have 4: "''version'' \<noteq> ''steps''" by simp
  from a 1 have A: "loadConfig no_file_env ''/src''
      = Inl (ReadConfigError (Err ''open duck-ci.yml: no such file or directory''))" by blast
  from b have B: "loadConfig (demo_env demo_manifest all_exit_0) ''/src''
      = Inr \<lparr>Steps = [\<lparr>StepName = ''build'', Image = ''alpine'', Runs = ''echo hi''\<rparr>]\<rparr>"
    by (simp add: demo_env_def demo_manifest_def)
  from c 3 have C: "\<exists>errs. loadConfig (demo_env (YMap [(''steps'', YScalar ''build'')]) all_exit_0) ''/src''
              = Inl (ParseConfigError (TypeError errs))"
    by (simp add: demo_env_def)
  from d have D: "loadConfig (demo_env (YMap ([] @ (''version'', YScalar ''2'') # [(''steps'', YSeq [])])) all_exit_0) ''/src''
      = loadConfig (demo_env (YMap ([] @ [(''steps'', YSeq [])])) all_exit_0) ''/src''"
    by (simp add: demo_env_def)
  show ?thesis by (intro conjI 1 2 3 4 A B C D)
qed

text \<open>
  C5, as the code has it. Nothing validates the fields of a step. A manifest whose
  steps are objects with scalar or null values loads without an error whatever keys
  the objects carry; a field whose key is absent or whose value is null is the empty
  string. \<^verbatim>\<open>Run\<close> then executes the loaded steps like any others: every step whose
  predecessors succeeded is announced and handed to the step executor, and when all
  steps succeed one container per step has been created, with the step's image and
  \<^verbatim>\<open>/bin/sh -c\<close> followed by its command, and the job ends with the status \<open>0\<close>.
\<close>

theorem loadConfig_no_validation:
  assumes ok: "store_ok w"
    and clone: "returns (cloneRepository w job) (Inr p)"
    and read: "ReadFile w (filepath_Join w p ''duck-ci.yml'') = Inr data"
    and parse: "yaml_parse w data = Inr (YMap [(''steps'', YSeq (map YMap objs))])"
    and plain: "list_all plain_object objs"
    and cli: "NewClientWithOpts w = Inr client"
  shows "\<exists>cfg. loadConfig w p = Inr cfg
     \<and> Steps cfg = map step_of_object objs
     \<and> (\<forall>i<length objs.
           ((''name'' \<notin> fst ` set (objs ! i) \<or> map_of (rev (objs ! i)) ''name'' = Some YNull)
               \<longrightarrow> StepName (Steps cfg ! i) = [])
         \<and> ((''image'' \<notin> fst ` set (objs ! i) \<or> map_of (rev (objs ! i)) ''image'' = Some YNull)
               \<longrightarrow> Image (Steps cfg ! i) = [])
         \<and> ((''runs'' \<notin> fst ` set (objs ! i) \<or> map_of (rev (objs ! i)) ''runs'' = Some YNull)
               \<longrightarrow> Runs (Steps cfg ! i) = []))
     \<and> (\<forall>i<length objs.
           (\<forall>j<i. returns (runStep w (client j) job (Steps cfg ! j) p) None) \<longrightarrow>
           (\<exists>T. Run w job t = Ret () (t @ T)
              \<and> StartingStep (i + 1) (StepName (Steps cfg ! i)) \<in> set (stored_lines T)
              \<and> i < executor_calls T))
     \<and> ((\<forall>i<length objs. returns (runStep w (client i) job (Steps cfg ! i) p) None) \<longrightarrow>
           (\<exists>T U. Run w job t = Ret () (t @ T)
              \<and> created T
                  = map (\<lambda>st. (\<lparr>cfgImage = Image st, WorkingDir = ''/app'',
                                  Cmd = [''/bin/sh'', ''-c'', Runs st], Tty = True\<rparr>,
                                \<lparr>Binds = [p @ '':/app'']\<rparr>)) (Steps cfg)
              \<and> T = U @ [DbInsertLog (Id job) JobCompleted, Println JobCompleted,
                         DbUpdateStatus (Id job) 0]))"
proof -
  let ?cfg = "\<lparr>Steps = map step_of_object objs\<rparr>"
  have load: "loadConfig w p = Inr ?cfg" by (rule loadConfig_plain[OF read parse plain])
  have len: "length (Steps ?cfg) = length objs" by simp
  have fields: "\<forall>i<length objs.
           ((''name'' \<notin> fst ` set (objs ! i) \<or> map_of (rev (objs ! i)) ''name'' = Some YNull)
               \<longrightarrow> StepName (Steps ?cfg ! i) = [])
         \<and> ((''image'' \<notin> fst ` set (objs ! i) \<or> map_of (rev (objs ! i)) ''image'' = Some YNull)
               \<longrightarrow> Image (Steps ?cfg ! i) = [])
         \<and> ((''runs'' \<notin> fst ` set (objs ! i) \<or> map_of (rev (objs ! i)) ''runs'' = Some YNull)
               \<longrightarrow> Runs (Steps ?cfg ! i) = [])"
    by (simp add: step_of_object_def step_of_object_absent)
  have reach: "\<forall>i<length objs.
           (\<forall>j<i. returns (runStep w (client j) job (Steps ?cfg ! j) p) None) \<longrightarrow>
           (\<exists>T. Run w job t = Ret () (t @ T)
              \<and> StartingStep (i + 1) (StepName (Steps ?cfg ! i)) \<in> set (stored_lines T)
              \<and> i < executor_calls T)"
  proof (intro allI impI)
    fix i assume i: "i < length objs"
      and pass: "\<forall>j<i. returns (runStep w (client j) job (Steps ?cfg ! j) p) None"
    from i have i': "i < length (Steps ?cfg)" by simp
    from Run_starts_reached_step[OF ok clone load cli i' pass]
    show "\<exists>T. Run w job t = Ret () (t @ T)
              \<and> StartingStep (i + 1) (StepName (Steps ?cfg ! i)) \<in> set (stored_lines T)
              \<and> i < executor_calls T" .
  qed
  have allpass: "(\<forall>i<length objs. returns (runStep w (client i) job (Steps ?cfg ! i) p) None) \<longrightarrow>
           (\<exists>T U. Run w job t = Ret () (t @ T)
              \<and> created T
                  = map (\<lambda>st. (\<lparr>cfgImage = Image st, WorkingDir = ''/app'',
                                  Cmd = [''/bin/sh'', ''-c'', Runs st], Tty = True\<rparr>,
                                \<lparr>Binds = [p @ '':/app'']\<rparr>)) (Steps ?cfg)
              \<and> T = U @ [DbInsertLog (Id job) JobCompleted, Println JobCompleted,
                         DbUpdateStatus (Id job) 0])"
  proof
    assume "\<forall>i<length objs. returns (runStep w (client i) job (Steps ?cfg ! i) p) None"
    then have pass: "\<forall>i<length (Steps ?cfg).
        returns (runStep w (client i) job (Steps ?cfg ! i) p) None" by simp
    from Run_all_pass[OF ok clone load cli pass, of t] obtain T U where
      run: "Run w job t = Ret () (t @ T)"
      and cr: "created T = map (step_cfg p) (Steps ?cfg)"
      and T: "T = U @ [DbInsertLog (Id job) JobCompleted, Println JobCompleted,
                DbUpdateStatus (Id job) 0]"
      by blast
    have "step_cfg p = (\<lambda>st. (\<lparr>cfgImage = Image st, WorkingDir = ''/app'',
                                  Cmd = [''/bin/sh'', ''-c'', Runs st], Tty = True\<rparr>,
                                \<lparr>Binds = [p @ '':/app'']\<rparr>))"
      by (rule ext) (simp add: step_cfg_def containerConfig_of_def hostConfig_of_def)
    with run cr T show "\<exists>T U. Run w job t = Ret () (t @ T)
              \<and> created T
                  = map (\<lambda>st. (\<lparr>cfgImage = Image st, WorkingDir = ''/app'',
                                  Cmd = [''/bin/sh'', ''-c'', Runs st], Tty = True\<rparr>,
                                \<lparr>Binds = [p @ '':/app'']\<rparr>)) (Steps ?cfg)
              \<and> T = U @ [DbInsertLog (Id job) JobCompleted, Println JobCompleted,
                         DbUpdateStatus (Id job) 0]"
      by auto
  qed
  show ?thesis
    apply (rule exI[where x="?cfg"])
    apply (intro conjI)
        apply (rule load)
       apply simp
      apply (rule fields)
     apply (rule reach)
    apply (rule allpass)
    done
qed

theorem loadConfig_no_validation_witness:
  "store_ok (demo_env no_runs_manifest all_exit_0)
   \<and> returns (cloneRepository (demo_env no_runs_manifest all_exit_0) demo_job)
       (Inr ''/tmp/duck-ci/demo-task-7'')
   \<and> ReadFile (demo_env no_runs_manifest all_exit_0)
       (filepath_Join (demo_env no_runs_manifest all_exit_0) ''/tmp/duck-ci/demo-task-7''
          ''duck-ci.yml'')
     = Inr ''steps: ...''
   \<and> yaml_parse (demo_env no_runs_manifest all_exit_0) ''steps: ...''
     = Inr (YMap [(''steps'', YSeq (map YMap [[(''name'', YScalar ''build''),
                                                (''image'', YScalar ''alpine'')]]))])
   \<and> list_all plain_object [[(''name'', YScalar ''build''), (''image'', YScalar ''alpine'')]]
   \<and> NewClientWithOpts (demo_env no_runs_manifest all_exit_0) = Inr all_exit_0
   \<and> loadConfig (demo_env no_runs_manifest all_exit_0) ''/tmp/duck-ci/demo-task-7''
     = Inr \<lparr>Steps = [\<lparr>StepName = ''build'', Image = ''alpine'', Runs = []\<rparr>]\<rparr>
   \<and> (\<exists>T. Run (demo_env no_runs_manifest all_exit_0) demo_job [] = Ret () T
        \<and> StartingStep 1 ''build'' \<in> set (stored_lines T)
        \<and> 0 < executor_calls T)
   \<and> (\<exists>T U. Run (demo_env no_runs_manifest all_exit_0) demo_job [] = Ret () T
        \<and> created T = [(\<lparr>cfgImage = ''alpine'', WorkingDir = ''/app'',
                           Cmd = [''/bin/sh'', ''-c'', []], Tty = True\<rparr>,
                         \<lparr>Binds = [''/tmp/duck-ci/demo-task-7:/app'']\<rparr>)]
        \<and> T = U @ [DbInsertLog 7 JobCompleted, Println JobCompleted, DbUpdateStatus 7 0])"
proof -
  let ?w = "demo_env no_runs_manifest all_exit_0"
  let ?p = "''/tmp/duck-ci/demo-task-7''"
  let ?o = "[(''name'', YScalar ''build''), (''image'', YScalar ''alpine'')]"
  let ?s = "\<lparr>StepName = ''build'', Image = ''alpine'', Runs = []\<rparr>"
  have 1: "ReadFile ?w (filepath_Join ?w ?p ''duck-ci.yml'') = Inr ''steps: ...''"
    by (simp add: demo_env_def)
  have 2: "yaml_parse ?w ''steps: ...'' = Inr (YMap [(''steps'', YSeq (map YMap [?o]))])"
    by (simp add: demo_env_def no_runs_manifest_def)
  have 3: "list_all plain_object [?o]"
    by (simp add: plain_object_def plain_value_def)
  have 4: "NewClientWithOpts ?w = Inr all_exit_0" by (simp add: demo_env_def)
  from loadConfig_no_validation[OF store_ok_demo demo_clone_returns 1 2 3 4, of "[]"]
  obtain cfg where load: "loadConfig ?w ?p = Inr cfg"
    and steps: "Steps cfg = map step_of_object [?o]"
    and reach: "\<forall>i<length [?o].
           (\<forall>j<i. returns (runStep ?w (all_exit_0 j) demo_job (Steps cfg ! j) ?p) None) \<longrightarrow>
           (\<exists>T. Run ?w demo_job [] = Ret () ([] @ T)
              \<and> StartingStep (i + 1) (StepName (Steps cfg ! i)) \<in> set (stored_lines T)
              \<and> i < executor_calls T)"
    and allpass: "(\<forall>i<length [?o].
             returns (runStep ?w (all_exit_0 i) demo_job (Steps cfg ! i) ?p) None) \<longrightarrow>
           (\<exists>T U. Run ?w demo_job [] = Ret () ([] @ T)
              \<and> created T
                  = map (\<lambda>st. (\<lparr>cfgImage = Image st, WorkingDir = ''/app'',
                                  Cmd = [''/bin/sh'', ''-c'', Runs st], Tty = True\<rparr>,
                                \<lparr>Binds = [?p @ '':/app'']\<rparr>)) (Steps cfg)
              \<and> T = U @ [DbInsertLog (Id demo_job) JobCompleted, Println JobCompleted,
                         DbUpdateStatus (Id demo_job) 0])"
    by blast
  from steps have steps': "Steps cfg = [?s]"
    by (simp add: step_of_object_def field_text_def text_of_def)
  then have cfg: "cfg = \<lparr>Steps = [?s]\<rparr>" by (cases cfg) simp
  from load cfg have 5: "loadConfig ?w ?p = Inr \<lparr>Steps = [?s]\<rparr>" by simp
  have pass: "\<forall>i<length [?o]. returns (runStep ?w (all_exit_0 i) demo_job (Steps cfg ! i) ?p) None"
    using runStep_answers_exit[of ?w ?s 0 demo_job ?p]
    by (simp add: all_exit_0_def steps')
  from reach have 6: "\<exists>T. Run ?w demo_job [] = Ret () T
        \<and> StartingStep 1 ''build'' \<in> set (stored_lines T)
        \<and> 0 < executor_calls T"
    by (simp add: steps')
  from allpass pass have "\<exists>T U. Run ?w demo_job [] = Ret () ([] @ T)
              \<and> created T
                  = map (\<lambda>st. (\<lparr>cfgImage = Image st, WorkingDir = ''/app'',
                                  Cmd = [''/bin/sh'', ''-c'', Runs st], Tty = True\<rparr>,
                                \<lparr>Binds = [?p @ '':/app'']\<rparr>)) (Steps cfg)
              \<and> T = U @ [DbInsertLog (Id demo_job) JobCompleted, Println JobCompleted,
                         DbUpdateStatus (Id demo_job) 0]"
    by blast
  then have 7: "\<exists>T U. Run ?w demo_job [] = Ret () T
        \<and> created T = [(\<lparr>cfgImage = ''alpine'', WorkingDir = ''/app'',
                           Cmd = [''/bin/sh'', ''-c'', []], Tty = True\<rparr>,
                         \<lparr>Binds = [''/tmp/duck-ci/demo-task-7:/app'']\<rparr>)]
        \<and> T = U @ [DbInsertLog 7 JobCompleted, Println JobCompleted, DbUpdateStatus 7 0]"
    by (simp add: steps' demo_job_def)
  show ?thesis by (intro conjI store_ok_demo demo_clone_returns 1 2 3 4 5 6 7)
qed

text \<open>
  The claim C5 as stated fails: a step object without \<open>runs\<close> is not rejected. The
  manifest loads, the step runs \<^verbatim>\<open>/bin/sh -c ""\<close> in its container, and the job ends
  with the status \<open>0\<close>.
\<close>

theorem loadConfig_accepts_missing_fields:
  "no_runs_manifest
     = YMap [(''steps'', YSeq [YMap [(''name'', YScalar ''build''), (''image'', YScalar ''alpine'')]])]
   \<and> loadConfig (demo_env no_runs_manifest all_exit_0) ''/tmp/duck-ci/demo-task-7''
       = Inr \<lparr>Steps = [\<lparr>StepName = ''build'', Image = ''alpine'', Runs = []\<rparr>]\<rparr>
   \<and> \<not> (\<exists>e. loadConfig (demo_env no_runs_manifest all_exit_0) ''/tmp/duck-ci/demo-task-7'' = Inl e)
   \<and> (\<exists>T U. Run (demo_env no_runs_manifest all_exit_0) demo_job [] = Ret () T
        \<and> created T = [(\<lparr>cfgImage = ''alpine'', WorkingDir = ''/app'',
                           Cmd = [''/bin/sh'', ''-c'', []], Tty = True\<rparr>,
                         \<lparr>Binds = [''/tmp/duck-ci/demo-task-7:/app'']\<rparr>)]
        \<and> T = U @ [DbInsertLog 7 JobCompleted, Println JobCompleted, DbUpdateStatus 7 0])"
proof -
  let ?w = "demo_env no_runs_manifest all_exit_0"
  let ?p = "''/tmp/duck-ci/demo-task-7''"
  let ?s = "\<lparr>StepName = ''build'', Image = ''alpine'', Runs = []\<rparr>"
  have load: "loadConfig ?w ?p = Inr \<lparr>Steps = [?s]\<rparr>"
    by (simp add: loadConfig_def yaml_Unmarshal_def demo_env_def no_runs_manifest_def
        zero_Config_def zero_Step_def)
  have cli: "NewClientWithOpts ?w = Inr all_exit_0" by (simp add: demo_env_def)
  have pass: "\<forall>i<length (Steps \<lparr>Steps = [?s]\<rparr>).
     returns (runStep ?w (all_exit_0 i) demo_job (Steps \<lparr>Steps = [?s]\<rparr> ! i) ?p) None"
    using runStep_answers_exit[of ?w ?s 0 demo_job ?p]
    by (simp add: all_exit_0_def)
  from Run_all_pass[OF store_ok_demo demo_clone_returns load cli pass, of "[]"]
  obtain T U where "Run ?w demo_job [] = Ret () T"
    and "created T = map (step_cfg ?p) [?s]"
    and "T = U @ [DbInsertLog (Id demo_job) JobCompleted, Println JobCompleted,
                DbUpdateStatus (Id demo_job) 0]"
    by auto
  then have run: "\<exists>T U. Run ?w demo_job [] = Ret () T
        \<and> created T = [(\<lparr>cfgImage = ''alpine'', WorkingDir = ''/app'',
                           Cmd = [''/bin/sh'', ''-c'', []], Tty = True\<rparr>,
                         \<lparr>Binds = [''/tmp/duck-ci/demo-task-7:/app'']\<rparr>)]
        \<and> T = U @ [DbInsertLog 7 JobCompleted, Println JobCompleted, DbUpdateStatus 7 0]"
    by (simp add: step_cfg_def containerConfig_of_def hostConfig_of_def demo_job_def)
  from load have nofail: "\<not> (\<exists>e. loadConfig ?w ?p = Inl e)" by simp
  show ?thesis
    by (intro conjI load nofail run) (simp add: no_runs_manifest_def)
qed

subsection \<open>The job lifecycle\<close>

text \<open>
  C2. In every world (the store may fail any write and end the process), the status
  values written to the row of a job created by the \<^verbatim>\<open>POST\<close> handler are \<open>[-1]\<close>,
  \<open>[-1, 0]\<close> or \<open>[-1, -1]\<close>, and no other job's status is written. The first \<open>-1\<close> is
  the status \<^verbatim>\<open>createJob\<close> inserts; a second value is the last event of the trace, so
  nothing follows a terminal status: \<open>0\<close> comes right after the line "Job completed
  successfully", and \<open>-1\<close>, the same code as that of the fresh job, right after a line
  reporting a failure.
\<close>

theorem job_status_sequence:
  assumes "db_insert_job w projectId branch = Inr jid"
  shows "\<exists>T. trace_of (TaskView_POST w projectId branch []) = T
     \<and> all_status_writes T = map (Pair jid) (status_writes jid T)
     \<and> (status_writes jid T = [- 1]
        \<or> (status_writes jid T = [- 1, 0]
            \<and> (\<exists>U. T = U @ [DbInsertLog jid JobCompleted, Println JobCompleted,
                              DbUpdateStatus jid 0]))
        \<or> (status_writes jid T = [- 1, - 1]
            \<and> (\<exists>U l. T = U @ [DbInsertLog jid l, Println l, DbUpdateStatus jid (- 1)]
                   \<and> is_failure_line l)))"
  using assms by (rule job_status_sequence_aux)

theorem job_status_sequence_witness:
  "db_insert_job (demo_env pipeline_manifest second_exits_3) ''1'' ''main'' = Inr 7
   \<and> status_writes 7 (trace_of (TaskView_POST (demo_env pipeline_manifest second_exits_3)
         ''1'' ''main'' [])) = [- 1, - 1]
   \<and> (\<exists>T. trace_of (TaskView_POST (demo_env pipeline_manifest second_exits_3) ''1'' ''main'' []) = T
     \<and> all_status_writes T = map (Pair 7) (status_writes 7 T)
     \<and> (status_writes 7 T = [- 1]
        \<or> (status_writes 7 T = [- 1, 0]
            \<and> (\<exists>U. T = U @ [DbInsertLog 7 JobCompleted, Println JobCompleted,
                              DbUpdateStatus 7 0]))
        \<or> (status_writes 7 T = [- 1, - 1]
            \<and> (\<exists>U l. T = U @ [DbInsertLog 7 l, Println l, DbUpdateStatus 7 (- 1)]
                   \<and> is_failure_line l))))"
proof -
  have i: "db_insert_job (demo_env pipeline_manifest second_exits_3) ''1'' ''main'' = Inr 7"
    by (simp add: demo_env_def)
  from job_status_sequence[OF i] i demo_failed_history show ?thesis by (intro conjI)
qed

end
